theory Spec2Isabelle
  imports Complex_Main
begin

section \<open>Conventions of the embedding\<close>

text \<open>
  The program is Python 2 (\<^verbatim>\<open>print\<close> statements, \<^verbatim>\<open>raw_input\<close>, \<^verbatim>\<open>xrange\<close>):
  \<^item> \<^verbatim>\<open>/\<close> between two integers is floor division, HOL's \<open>div\<close> on \<open>int\<close>;
  \<^item> \<^verbatim>\<open>/\<close> with a float operand is float division and raises
    \<^verbatim>\<open>ZeroDivisionError\<close> on a zero divisor;
  \<^item> \<^verbatim>\<open>int(x)\<close> of a float truncates toward zero.
  Floats are embedded as exact reals: rounding is not modelled, every branch on a
  float (a zero divisor, an equality, a comparison) is taken on the exact value.
  Every exception the source can raise is a value \<open>Inl e\<close> of the result type.
\<close>

datatype error =
    ZeroDivisionError
  | KeyError
  | IndexError
  | TypeError
  | NameError
  | AttributeError
  | InputError
  | CvError

definition bnd :: "error + 'a \<Rightarrow> ('a \<Rightarrow> error + 'b) \<Rightarrow> error + 'b" where
  "bnd m f = (case m of Inl e \<Rightarrow> Inl e | Inr v \<Rightarrow> f v)"

definition fdiv :: "real \<Rightarrow> real \<Rightarrow> error + real" where
  "fdiv a b = (if b = 0 then Inl ZeroDivisionError else Inr (a / b))"

definition py_int :: "real \<Rightarrow> int" where
  "py_int x = (if 0 \<le> x then \<lfloor>x\<rfloor> else \<lceil>x\<rceil>)"

type_synonym point = "int \<times> int"
type_synonym fpoint = "real \<times> real"

definition rp :: "point \<Rightarrow> fpoint" where
  "rp p = (real_of_int (fst p), real_of_int (snd p))"

section \<open>Display constants\<close>

definition screen_max_w :: real where "screen_max_w = 1400"
definition screen_max_h :: real where "screen_max_h = 800"

section \<open>Geometry kernel\<close>

text \<open>\<^verbatim>\<open>distance\<close>: \<^verbatim>\<open>((pt2[0]-pt1[0])**2 + (pt2[1]-pt1[1])**2)**0.5\<close>.\<close>

definition distance :: "fpoint \<Rightarrow> fpoint \<Rightarrow> real" where
  "distance pt1 pt2 = sqrt ((fst pt2 - fst pt1)\<^sup>2 + (snd pt2 - snd pt1)\<^sup>2)"

text \<open>\<^verbatim>\<open>midpoint\<close> on clicked (integer) points: both halves are floor divisions.\<close>

definition midpoint :: "point \<Rightarrow> point \<Rightarrow> point" where
  "midpoint pt1 pt2 = ((fst pt1 + fst pt2) div 2, (snd pt1 + snd pt2) div 2)"

definition calc_bisector_ends :: "point \<Rightarrow> point \<Rightarrow> point \<times> point" where
  "calc_bisector_ends pt1 pt2 =
     (let factor = 4;
          mid_x = fst (midpoint pt1 pt2);
          mid_y = snd (midpoint pt1 pt2);
          pt1_rot = (mid_x - snd pt1 + mid_y, mid_y + fst pt1 - mid_x);
          pt2_rot = (mid_x - snd pt2 + mid_y, mid_y + fst pt2 - mid_x);
          d_pt1_x = fst pt1_rot - mid_x;
          d_pt1_y = snd pt1_rot - mid_y;
          pt1_ext = (mid_x + factor * d_pt1_x, mid_y + factor * d_pt1_y);
          d_pt2_x = fst pt2_rot - mid_x;
          d_pt2_y = snd pt2_rot - mid_y;
          pt2_ext = (mid_x + factor * d_pt2_x, mid_y + factor * d_pt2_y)
      in (pt1_ext, pt2_ext))"

text \<open>
  \<^verbatim>\<open>get_circle_center\<close> returns either the pair of strings \<^verbatim>\<open>'DNE', 'DNE'\<close> or a
  centre and a radius. The three points are reordered so that neither chord
  \<open>(x1,y1)-(x2,y2)\<close>, \<open>(x2,y2)-(x3,y3)\<close> is vertical; the four divisions of the source
  are the four \<open>fdiv\<close> below, in the source's order.
\<close>

datatype circle = DNE | Circle fpoint real

definition reorder :: "point \<Rightarrow> point \<Rightarrow> point \<Rightarrow> point \<times> point \<times> point" where
  "reorder pt1 pt2 pt3 =
     (if fst pt1 = fst pt2 then (pt2, pt3, pt1)
      else if fst pt2 = fst pt3 then (pt3, pt1, pt2)
      else (pt1, pt2, pt3))"

definition get_circle_center :: "point \<Rightarrow> point \<Rightarrow> point \<Rightarrow> error + circle" where
  "get_circle_center pt1 pt2 pt3 =
     (if fst pt1 = fst pt2 \<and> fst pt1 = fst pt3 then Inr DNE
      else
        (case reorder pt1 pt2 pt3 of ((x1, y1), (x2, y2), (x3, y3)) \<Rightarrow>
          bnd (fdiv (real_of_int (y2 - y1)) (real_of_int x2 - real_of_int x1)) (\<lambda>slope_a.
          bnd (fdiv (real_of_int (y3 - y2)) (real_of_int x3 - real_of_int x2)) (\<lambda>slope_b.
            if slope_a = slope_b then Inr DNE
            else
              bnd (fdiv (slope_a * slope_b * real_of_int (y1 - y3)
                          + slope_b * real_of_int (x1 + x2)
                          - slope_a * real_of_int (x2 + x3))
                        (2 * (slope_b - slope_a))) (\<lambda>x_center.
              bnd (fdiv (-1) slope_a) (\<lambda>neg_inv.
                let y_center = neg_inv * (x_center - real_of_int (x1 + x2) / 2)
                                 + real_of_int (y1 + y2) / 2;
                    radius = distance (x_center, y_center) (rp pt1)
                in Inr (Circle (x_center, y_center) radius)))))))"

text \<open>Collinearity of three integer points, by the cross product.\<close>

definition collinear3 :: "point \<Rightarrow> point \<Rightarrow> point \<Rightarrow> bool" where
  "collinear3 p q r =
     ((fst q - fst p) * (snd r - snd p) = (fst r - fst p) * (snd q - snd p))"

section \<open>Viewport controller\<close>

text \<open>
  \<^verbatim>\<open>calc_new_view\<close>. The zoom factor is 1.3; the two conversions of the click divide
  a float by the displayed resolution and raise on a zero resolution.
\<close>

definition zoom_scale :: real where "zoom_scale = 13 / 10"

definition shift_into :: "int \<Rightarrow> int \<Rightarrow> int \<Rightarrow> int \<Rightarrow> int \<times> int" where
  "shift_into lo hi new_min new_max =
     (let (a, b) = (if new_min < lo
                    then (new_min + \<bar>new_min - lo\<bar>, new_max + \<bar>new_min - lo\<bar>)
                    else (new_min, new_max))
      in if b > hi then (a - \<bar>hi - b\<bar>, b - \<bar>hi - b\<bar>) else (a, b))"

definition calc_new_view ::
  "int \<Rightarrow> int \<Rightarrow> int \<Rightarrow> int \<Rightarrow> int \<Rightarrow> int \<Rightarrow> int \<Rightarrow> int \<Rightarrow> error + (int \<times> int \<times> int \<times> int)" where
  "calc_new_view h_min h_max w_min w_max res_height res_width click_h click_w =
     bnd (fdiv (real_of_int click_h) (real_of_int res_height)) (\<lambda>fh.
     bnd (fdiv (real_of_int click_w) (real_of_int res_width)) (\<lambda>fw.
       let orig_click_h = h_min + py_int (fh * real_of_int (h_max - h_min));
           orig_click_w = w_min + py_int (fw * real_of_int (w_max - w_min));
           new_window_width = py_int (real_of_int (w_max - w_min) / zoom_scale);
           new_window_height = py_int (screen_max_h * real_of_int new_window_width / screen_max_w);
           (new_h_min, new_h_max) =
              shift_into h_min h_max (orig_click_h - new_window_height div 2)
                                     (orig_click_h + new_window_height div 2);
           (new_w_min, new_w_max) =
              shift_into w_min w_max (orig_click_w - new_window_width div 2)
                                     (orig_click_w + new_window_width div 2)
       in Inr (new_h_min, new_h_max, new_w_min, new_w_max)))"

text \<open>A rectangle lies inside an image of the given height and width.\<close>

definition inside_image :: "int \<Rightarrow> int \<Rightarrow> int \<times> int \<times> int \<times> int \<Rightarrow> bool" where
  "inside_image img_h img_w v =
     (case v of (hmin, hmax, wmin, wmax) \<Rightarrow>
        0 \<le> hmin \<and> hmin \<le> hmax \<and> hmax \<le> img_h \<and> 0 \<le> wmin \<and> wmin \<le> wmax \<and> wmax \<le> img_w)"

section \<open>Session state\<close>

text \<open>
  Values stored in a record or in \<^verbatim>\<open>image_data\<close>: integers (box bounds), floats,
  strings (status, answers, the \<^verbatim>\<open>'DNE'\<close> marker), clicked points (tuples of
  integers) and the circle centre (a tuple of floats). A dictionary is a map from
  keys to values.
\<close>

datatype val = IntV int | FloatV real | StrV string | PtV point | FPtV fpoint

type_synonym dict = "string \<rightharpoonup> val"

text \<open>The values of the global \<^verbatim>\<open>mode\<close>, one constructor per string of the source.\<close>

datatype mode =
    M_box | M_8points | M_4points | M_scale_bar
  | M_zoom_in | M_zoom_out | M_reset | M_next | M_quit

text \<open>
  The globals shared by the mouse callback and the interaction loop. The image
  buffer \<^verbatim>\<open>img\<close> only receives drawings; no measurement reads it, and it is left out.
\<close>

record session =
  cx :: int
  cy :: int
  px :: int
  py :: int
  mode :: mode
  points :: int
  sb_ends :: int
  h_min :: int
  h_max :: int
  w_min :: int
  w_max :: int
  res_h :: int
  res_w :: int
  image_data :: dict

definition put :: "string \<Rightarrow> val \<Rightarrow> session \<Rightarrow> session" where
  "put k v s = s\<lparr>image_data := (image_data s)(k \<mapsto> v)\<rparr>"

text \<open>Reading a clicked point back: a missing key raises \<^verbatim>\<open>KeyError\<close>.\<close>

definition get_pt :: "dict \<Rightarrow> string \<Rightarrow> error + point" where
  "get_pt d k = (case d k of None \<Rightarrow> Inl KeyError | Some (PtV p) \<Rightarrow> Inr p | Some _ \<Rightarrow> Inl TypeError)"

definition center_val :: "circle \<Rightarrow> val" where
  "center_val c = (case c of DNE \<Rightarrow> StrV ''DNE'' | Circle ctr r \<Rightarrow> FPtV ctr)"

definition radius_val :: "circle \<Rightarrow> val" where
  "radius_val c = (case c of DNE \<Rightarrow> StrV ''DNE'' | Circle ctr r \<Rightarrow> FloatV r)"

section \<open>Mouse callback\<close>

text \<open>
  \<^verbatim>\<open>raw = lo + int((float(c)/res) * (hi - lo))\<close>, the conversion of a window coordinate
  to the original image.
\<close>

definition raw_coord :: "int \<Rightarrow> int \<Rightarrow> int \<Rightarrow> int \<Rightarrow> error + int" where
  "raw_coord lo hi res c =
     bnd (fdiv (real_of_int c) (real_of_int res)) (\<lambda>f. Inr (lo + py_int (f * real_of_int (hi - lo))))"

text \<open>
  A callback assigns globals before it raises, so each part returns the state reached
  together with the exception, if any.
\<close>

definition box_click :: "int \<Rightarrow> int \<Rightarrow> session \<Rightarrow> session \<times> error option" where
  "box_click x y s =
     (if px s \<noteq> -1 then
        (case bnd (raw_coord (h_min s) (h_max s) (res_h s) y) (\<lambda>raw_box_h1.
              bnd (raw_coord (w_min s) (w_max s) (res_w s) x) (\<lambda>raw_box_w1.
              bnd (raw_coord (h_min s) (h_max s) (res_h s) (py s)) (\<lambda>raw_box_h2.
              bnd (raw_coord (w_min s) (w_max s) (res_w s) (px s)) (\<lambda>raw_box_w2.
                Inr (raw_box_h1, raw_box_w1, raw_box_h2, raw_box_w2))))) of
           Inl e \<Rightarrow> (s, Some e)
         | Inr (raw_box_h1, raw_box_w1, raw_box_h2, raw_box_w2) \<Rightarrow>
             (let s1 = (if raw_box_h1 < raw_box_h2
                        then put ''im_box_h2'' (IntV raw_box_h2) (put ''im_box_h1'' (IntV raw_box_h1) s)
                        else put ''im_box_h2'' (IntV raw_box_h1) (put ''im_box_h1'' (IntV raw_box_h2) s));
                  s2 = (if raw_box_w1 < raw_box_w2
                        then put ''im_box_w2'' (IntV raw_box_w2) (put ''im_box_w1'' (IntV raw_box_w1) s1)
                        else put ''im_box_w2'' (IntV raw_box_w1) (put ''im_box_w1'' (IntV raw_box_w2) s1))
              in (s2, None)))
      else (s, None))"

definition points_click :: "point \<Rightarrow> session \<Rightarrow> session \<times> error option" where
  "points_click p s =
     (if points s = 1 then
        ((put ''im_p_length_1'' (PtV p) s)\<lparr>points := points s + 1\<rparr>, None)
      else if points s = 2 then
        (let s1 = put ''im_p_length_2'' (PtV p) s in
         case get_pt (image_data s1) ''im_p_length_1'' of
           Inl e \<Rightarrow> (s1, Some e)
         | Inr l1 \<Rightarrow> (s1\<lparr>points := points s + 1\<rparr>, None))
      else if points s = 3 then
        ((put ''im_p_midpoint_1'' (PtV p) s)\<lparr>points := points s + 1\<rparr>, None)
      else if points s = 4 then
        (let s1 = (put ''im_p_midpoint_2'' (PtV p) s)\<lparr>points := points s + 1\<rparr> in
         if mode s = M_8points then
           (case get_pt (image_data s1) ''im_p_midpoint_1'' of
              Inl e \<Rightarrow> (s1, Some e)
            | Inr m1 \<Rightarrow>
                (let egg_middle = midpoint p m1;
                     s2 = put ''im_p_egg_middle'' (PtV egg_middle) s1 in
                 case bnd (get_pt (image_data s2) ''im_p_length_1'') (\<lambda>l1.
                      bnd (get_pt (image_data s2) ''im_p_length_2'') (\<lambda>l2.
                        get_circle_center egg_middle l1 l2)) of
                   Inl e \<Rightarrow> (s2, Some e)
                 | Inr c \<Rightarrow>
                     (put ''im_radius_px'' (radius_val c)
                        (put ''im_p_circle_center'' (center_val c) s2), None)))
         else (s1, None))
      else if points s = 5 \<and> mode s = M_8points then
        ((put ''im_p_1st_quart_1'' (PtV p) s)\<lparr>points := points s + 1\<rparr>, None)
      else if points s = 6 \<and> mode s = M_8points then
        (let s1 = put ''im_p_1st_quart_2'' (PtV p) s in
         case bnd (get_pt (image_data s1) ''im_p_egg_middle'') (\<lambda>m.
              get_pt (image_data s1) ''im_p_length_2'') of
           Inl e \<Rightarrow> (s1, Some e)
         | Inr l2 \<Rightarrow> (s1\<lparr>points := points s + 1\<rparr>, None))
      else if points s = 7 \<and> mode s = M_8points then
        ((put ''im_p_3rd_quart_1'' (PtV p) s)\<lparr>points := points s + 1\<rparr>, None)
      else if points s = 8 \<and> mode s = M_8points then
        ((put ''im_p_3rd_quart_2'' (PtV p) s)\<lparr>points := points s + 1\<rparr>, None)
      else (s, None))"

definition scale_bar_click :: "point \<Rightarrow> session \<Rightarrow> session \<times> error option" where
  "scale_bar_click p s =
     (if sb_ends s = 1 then
        ((put ''im_p_scale_bar_1'' (PtV p) s)\<lparr>sb_ends := sb_ends s + 1\<rparr>, None)
      else if sb_ends s = 2 then
        (put ''im_p_scale_bar_2'' (PtV p) s, None)
      else (s, None))"

datatype mouse = LButtonUp int int | RButtonUp int int | OtherEvent int int

definition annotate_image :: "mouse \<Rightarrow> session \<Rightarrow> session \<times> error option" where
  "annotate_image ev s =
     (case ev of
        LButtonUp x y \<Rightarrow>
          (case bnd (raw_coord (h_min s) (h_max s) (res_h s) y) (\<lambda>raw_h.
                bnd (raw_coord (w_min s) (w_max s) (res_w s) x) (\<lambda>raw_w. Inr (raw_w, raw_h))) of
             Inl e \<Rightarrow> (s, Some e)
           | Inr p \<Rightarrow>
               (case (if mode s = M_box then box_click x y s
                      else if mode s = M_8points \<or> mode s = M_4points then points_click p s
                      else if mode s = M_scale_bar then scale_bar_click p s
                      else (s, None)) of
                  (s1, Some e) \<Rightarrow> (s1, Some e)
                | (s1, None) \<Rightarrow> (s1\<lparr>px := x, py := y\<rparr>, None)))
      | RButtonUp x y \<Rightarrow> (s\<lparr>cx := x, cy := y, mode := M_zoom_in\<rparr>, None)
      | OtherEvent x y \<Rightarrow> (s, None))"

section \<open>Interaction loop\<close>

text \<open>
  A function that may raise, or wait for input that never comes, has an outcome.
  \<open>Waits\<close> is the value of a run whose recorded input ends before the program
  returns: the loops of the source do not terminate by themselves.
\<close>

datatype 'a outcome = Returns 'a | Raises error | Waits

text \<open>
  \<^verbatim>\<open>make_new_view\<close>: only the shape of the resized crop is read back by the caller.
  The shape is computed by the image library from the crop bounds and the factor;
  it is the parameter \<open>rz\<close> (\<open>None\<close> when the library rejects the crop).
\<close>

type_synonym resizer = "int \<Rightarrow> int \<Rightarrow> int \<Rightarrow> int \<Rightarrow> real \<Rightarrow> (int \<times> int) option"

definition make_new_view :: "resizer \<Rightarrow> int \<Rightarrow> int \<Rightarrow> int \<Rightarrow> int \<Rightarrow> error + (int \<times> int)" where
  "make_new_view rz hmin hmax wmin wmax =
     bnd (fdiv screen_max_w (real_of_int (wmax - wmin))) (\<lambda>rf0.
     bnd (if real_of_int (hmax - hmin) * rf0 > screen_max_h
          then fdiv screen_max_h (real_of_int (hmax - hmin)) else Inr rf0) (\<lambda>resize_factor.
       case rz hmin hmax wmin wmax resize_factor of
         None \<Rightarrow> Inl CvError
       | Some shape \<Rightarrow> Inr shape))"

text \<open>
  One call of \<^verbatim>\<open>cv2.waitKey\<close> delivers the pending mouse events to the callback and
  returns a key code (\<open>-1\<close> when no key was pressed). The GUI library reports an
  exception that escapes a callback and goes on: the assignments made before the
  raise stay, the exception does not reach the loop.
\<close>

type_synonym tick = "mouse list \<times> int"

fun deliver :: "mouse list \<Rightarrow> session \<Rightarrow> session" where
  "deliver [] s = s"
| "deliver (ev # evs) s = deliver evs (fst (annotate_image ev s))"

text \<open>The key dispatch of the inner loop; the flag says whether the loop breaks.\<close>

definition key_step :: "int \<Rightarrow> session \<Rightarrow> session \<times> bool" where
  "key_step k s =
     (if k = 27 then (s\<lparr>mode := M_quit\<rparr>, True)
      else if k = 110 then (s\<lparr>mode := M_next\<rparr>, True)
      else if k = 45 then (s\<lparr>mode := M_zoom_out\<rparr>, True)
      else if k = 127 then (s\<lparr>mode := M_reset\<rparr>, True)
      else if k = 98 then (s\<lparr>mode := M_box\<rparr>, False)
      else if k = 56 then (s\<lparr>mode := M_8points, points := 1\<rparr>, False)
      else if k = 52 then (s\<lparr>mode := M_4points, points := 1\<rparr>, False)
      else if k = 115 then (s\<lparr>mode := M_scale_bar\<rparr>, False)
      else (s, False))"

text \<open>
  The inner \<^verbatim>\<open>while(1)\<close>: it returns the state at its \<^verbatim>\<open>break\<close> and the input not
  yet consumed. The \<^verbatim>\<open>zoom_in\<close> test comes before \<^verbatim>\<open>waitKey\<close>, so that break
  consumes nothing.
\<close>

fun inner_loop :: "resizer \<Rightarrow> tick list \<Rightarrow> session \<Rightarrow> (session \<times> tick list) outcome" where
  "inner_loop rz [] s =
     (case make_new_view rz (h_min s) (h_max s) (w_min s) (w_max s) of
        Inl e \<Rightarrow> Raises e
      | Inr (rh, rw) \<Rightarrow>
          if mode s = M_zoom_in then Returns (s\<lparr>res_h := rh, res_w := rw\<rparr>, []) else Waits)"
| "inner_loop rz ((evs, k) # ts) s =
     (case make_new_view rz (h_min s) (h_max s) (w_min s) (w_max s) of
        Inl e \<Rightarrow> Raises e
      | Inr (rh, rw) \<Rightarrow>
          if mode s = M_zoom_in then Returns (s\<lparr>res_h := rh, res_w := rw\<rparr>, (evs, k) # ts)
          else (case key_step k (deliver evs (s\<lparr>res_h := rh, res_w := rw\<rparr>)) of
                  (s2, brk) \<Rightarrow> if brk then Returns (s2, ts) else inner_loop rz ts s2))"

text \<open>What the outer loop does after the inner loop has broken with each mode.\<close>

definition zoomed_in :: "session \<Rightarrow> error + session" where
  "zoomed_in s =
     bnd (calc_new_view (h_min s) (h_max s) (w_min s) (w_max s) (res_h s) (res_w s) (cy s) (cx s))
       (\<lambda>(a, b, c, d). Inr (s\<lparr>h_min := a, h_max := b, w_min := c, w_max := d,
                               px := -1, py := -1, mode := M_box\<rparr>))"

definition zoomed_out :: "int \<Rightarrow> int \<Rightarrow> session \<Rightarrow> session" where
  "zoomed_out img_h img_w s =
     s\<lparr>h_min := 0, h_max := img_h, w_min := 0, w_max := img_w, px := -1, py := -1, mode := M_box\<rparr>"

definition reset_all :: "int \<Rightarrow> int \<Rightarrow> session \<Rightarrow> session" where
  "reset_all img_h img_w s =
     s\<lparr>h_min := 0, h_max := img_h, w_min := 0, w_max := img_w, px := -1, py := -1, mode := M_box,
       points := 1, image_data := Map.empty\<rparr>"

lemma inner_loop_consumes:
  "inner_loop rz ts s = Returns (s1, ts1) \<Longrightarrow>
     length ts1 < length ts \<or> (ts1 = ts \<and> mode s = M_zoom_in \<and> mode s1 = M_zoom_in)"
proof (induction rz ts s rule: inner_loop.induct)
  case (1 rz s)
  then show ?case by (auto split: sum.splits if_splits)
next
  case (2 rz evs k ts s)
  then show ?case by (fastforce split: sum.splits if_splits prod.splits)
qed

function outer_loop :: "resizer \<Rightarrow> int \<Rightarrow> int \<Rightarrow> tick list \<Rightarrow> session \<Rightarrow> session outcome" where
  "outer_loop rz img_h img_w ts s =
     (case inner_loop rz ts s of
        Waits \<Rightarrow> Waits
      | Raises e \<Rightarrow> Raises e
      | Returns (s1, ts1) \<Rightarrow>
          if mode s1 = M_quit \<or> mode s1 = M_next then Returns s1
          else if mode s1 = M_zoom_in then
            (case zoomed_in s1 of
               Inl e \<Rightarrow> Raises e
             | Inr s2 \<Rightarrow> outer_loop rz img_h img_w ts1 s2)
          else if mode s1 = M_zoom_out then outer_loop rz img_h img_w ts1 (zoomed_out img_h img_w s1)
          else if mode s1 = M_reset then outer_loop rz img_h img_w ts1 (reset_all img_h img_w s1)
          else outer_loop rz img_h img_w ts1 s1)"
  by pat_completeness auto
termination
proof (relation "measure (\<lambda>(rz, img_h, img_w, ts, s). 2 * length ts + (if mode s = M_zoom_in then 1 else 0))")
  show "wf (measure (\<lambda>(rz, img_h, img_w, ts, s). 2 * length ts + (if mode s = M_zoom_in then 1 else 0)))"
    by simp
next
  fix rz :: resizer and img_h img_w :: int and ts :: "tick list" and s x2 s1 ts1 s2
  assume "inner_loop rz ts s = Returns x2" "(s1, ts1) = x2" "zoomed_in s1 = Inr s2"
  then have "inner_loop rz ts s = Returns (s1, ts1)" "mode s2 = M_box"
    by (auto simp: zoomed_in_def bnd_def split: sum.splits prod.splits)
  with inner_loop_consumes[of rz ts s s1 ts1]
  show "((rz, img_h, img_w, ts1, s2), (rz, img_h, img_w, ts, s))
          \<in> measure (\<lambda>(rz, img_h, img_w, ts, s). 2 * length ts + (if mode s = M_zoom_in then 1 else 0))"
    by auto
next
  fix rz :: resizer and img_h img_w :: int and ts :: "tick list" and s x2 s1 ts1
  assume "inner_loop rz ts s = Returns x2" "(s1, ts1) = x2" "mode s1 \<noteq> M_zoom_in"
  then have "inner_loop rz ts s = Returns (s1, ts1)" by simp
  with inner_loop_consumes[of rz ts s s1 ts1] \<open>mode s1 \<noteq> M_zoom_in\<close>
  show "((rz, img_h, img_w, ts1, zoomed_out img_h img_w s1), (rz, img_h, img_w, ts, s))
          \<in> measure (\<lambda>(rz, img_h, img_w, ts, s). 2 * length ts + (if mode s = M_zoom_in then 1 else 0))"
    by (auto simp: zoomed_out_def)
next
  fix rz :: resizer and img_h img_w :: int and ts :: "tick list" and s x2 s1 ts1
  assume "inner_loop rz ts s = Returns x2" "(s1, ts1) = x2" "mode s1 \<noteq> M_zoom_in"
  then have "inner_loop rz ts s = Returns (s1, ts1)" by simp
  with inner_loop_consumes[of rz ts s s1 ts1] \<open>mode s1 \<noteq> M_zoom_in\<close>
  show "((rz, img_h, img_w, ts1, reset_all img_h img_w s1), (rz, img_h, img_w, ts, s))
          \<in> measure (\<lambda>(rz, img_h, img_w, ts, s). 2 * length ts + (if mode s = M_zoom_in then 1 else 0))"
    by (auto simp: reset_all_def)
next
  fix rz :: resizer and img_h img_w :: int and ts :: "tick list" and s x2 s1 ts1
  assume "inner_loop rz ts s = Returns x2" "(s1, ts1) = x2" "mode s1 \<noteq> M_zoom_in"
  then have "inner_loop rz ts s = Returns (s1, ts1)" by simp
  with inner_loop_consumes[of rz ts s s1 ts1] \<open>mode s1 \<noteq> M_zoom_in\<close>
  show "((rz, img_h, img_w, ts1, s1), (rz, img_h, img_w, ts, s))
          \<in> measure (\<lambda>(rz, img_h, img_w, ts, s). 2 * length ts + (if mode s = M_zoom_in then 1 else 0))"
    by auto
qed

declare outer_loop.simps [simp del]

section \<open>Measurement finalizer\<close>

text \<open>Console input is the list of the lines the operator types, consumed in order.\<close>

fun ask :: "(string \<Rightarrow> bool) \<Rightarrow> string list \<Rightarrow> (string \<times> string list) option" where
  "ask valid [] = None"
| "ask valid (l # ls) = (if valid l then Some (l, ls) else ask valid ls)"

text \<open>
  The scale-bar prompts run only when both ends were clicked: the unit is asked until
  it is \<^verbatim>\<open>'u'\<close> or \<^verbatim>\<open>'m'\<close>, then one line is read by \<^verbatim>\<open>float(input(...))\<close>. The
  parameter \<open>inp\<close> is that conversion, \<open>None\<close> when it raises.
\<close>

definition read_scale ::
  "(string \<Rightarrow> real option) \<Rightarrow> dict \<Rightarrow> string list \<Rightarrow> ((string \<times> real) option \<times> string list) outcome" where
  "read_scale inp d cons =
     (if d ''im_p_scale_bar_1'' \<noteq> None then
        (if d ''im_p_scale_bar_2'' \<noteq> None then
           (case ask (\<lambda>u. u = ''u'' \<or> u = ''m'') cons of
              None \<Rightarrow> Waits
            | Some (units, cons1) \<Rightarrow>
                (case cons1 of
                   [] \<Rightarrow> Waits
                 | l # cons2 \<Rightarrow>
                     (case inp l of
                        None \<Rightarrow> Raises InputError
                      | Some reported_sb_length \<Rightarrow> Returns (Some (units, reported_sb_length), cons2))))
         else Returns (None, cons))
      else Returns (None, cons))"

definition set_box_status :: "dict \<Rightarrow> dict" where
  "set_box_status d = (if d ''im_box_h1'' \<noteq> None then d(''im_status'' \<mapsto> StrV ''box'') else d)"

text \<open>
  CALCULATE SCALING, given the operator's answers (\<open>None\<close> when the prompts did not
  run). The second component is the local variable \<^verbatim>\<open>mm_per_px\<close>, if assigned.
\<close>

definition calc_scaling :: "(string \<times> real) option \<Rightarrow> dict \<Rightarrow> error + (dict \<times> real option)" where
  "calc_scaling answers d =
     (case answers of
        None \<Rightarrow> Inr (d, None)
      | Some (units, reported_sb_length) \<Rightarrow>
          (let adjusted_sb_length = (if units = ''u'' then reported_sb_length / 1000 else reported_sb_length);
               d1 = d(''im_sb_length_mm'' \<mapsto> FloatV adjusted_sb_length) in
           bnd (get_pt d1 ''im_p_scale_bar_1'') (\<lambda>sb1.
           bnd (get_pt d1 ''im_p_scale_bar_2'') (\<lambda>sb2.
           bnd (fdiv adjusted_sb_length (distance (rp sb1) (rp sb2))) (\<lambda>mm_per_px.
             Inr (d1(''im_mm_per_px'' \<mapsto> FloatV mm_per_px,
                     ''im_sb_length_px'' \<mapsto> FloatV (distance (rp sb1) (rp sb2))),
                  Some mm_per_px))))))"

text \<open>ASYMMETRY: the ratio of the longer quartile width to the shorter one.\<close>

definition calc_asym :: "dict \<Rightarrow> error + dict" where
  "calc_asym d =
     bnd (get_pt d ''im_p_1st_quart_1'') (\<lambda>q11.
     bnd (get_pt d ''im_p_1st_quart_2'') (\<lambda>q12.
     bnd (get_pt d ''im_p_3rd_quart_1'') (\<lambda>q31.
     bnd (get_pt d ''im_p_3rd_quart_2'') (\<lambda>q32.
       let quartile_len_1 = distance (rp q11) (rp q12);
           quartile_len_3 = distance (rp q31) (rp q32);
           longer_quartile = (if quartile_len_3 > quartile_len_1 then quartile_len_3 else quartile_len_1);
           shorter_quartile = (if quartile_len_3 > quartile_len_1 then quartile_len_1 else quartile_len_3)
       in bnd (fdiv longer_quartile shorter_quartile) (\<lambda>asym.
            Inr (d(''im_asym'' \<mapsto> FloatV asym)))))))"

text \<open>
  CURVATURE. The source writes \<^verbatim>\<open>3.1415\<close> for the circle constant, both in the
  correction \<^verbatim>\<open>2*3.1415-curvature_rad\<close> and in the conversion to degrees. The second
  component is the local variable \<^verbatim>\<open>curvature_rad\<close>, assigned only when the radius
  is a number.
\<close>

definition pi_src :: real where "pi_src = 31415 / 10000"

definition get_fpt :: "dict \<Rightarrow> string \<Rightarrow> error + fpoint" where
  "get_fpt d k = (case d k of None \<Rightarrow> Inl KeyError | Some (FPtV c) \<Rightarrow> Inr c | Some _ \<Rightarrow> Inl TypeError)"

definition calc_curvature :: "dict \<Rightarrow> error + (dict \<times> real option)" where
  "calc_curvature d =
     (case d ''im_radius_px'' of
        None \<Rightarrow> Inl KeyError
      | Some rv \<Rightarrow>
          if rv = StrV ''DNE'' then
            Inr (d(''im_curvature_deg'' \<mapsto> IntV 0, ''im_curvature_rad'' \<mapsto> IntV 0), None)
          else
            bnd (get_pt d ''im_p_length_1'') (\<lambda>l1.
            bnd (get_fpt d ''im_p_circle_center'') (\<lambda>c.
            bnd (get_pt d ''im_p_length_2'') (\<lambda>l2.
            (case rv of
               FloatV radius \<Rightarrow>
                 (let x_v1 = real_of_int (fst l1) - fst c;
                      y_v1 = real_of_int (snd l1) - snd c;
                      x_v2 = real_of_int (fst l2) - fst c;
                      y_v2 = real_of_int (snd l2) - snd c in
                  bnd (fdiv (x_v1 * x_v2 + y_v1 * y_v2) (radius\<^sup>2)) (\<lambda>cosine.
                  bnd (get_pt d ''im_p_egg_middle'') (\<lambda>egg_middle.
                    let center_displacement_px = distance (rp egg_middle) (rp (midpoint l1 l2));
                        curvature_rad = (if center_displacement_px > radius
                                         then 2 * pi_src - arccos cosine else arccos cosine);
                        curvature_deg = curvature_rad * 180 / pi_src
                    in Inr (d(''im_curvature_deg'' \<mapsto> FloatV curvature_deg,
                              ''im_curvature_rad'' \<mapsto> FloatV curvature_rad,
                              ''im_length_curved_px'' \<mapsto> FloatV (curvature_rad * radius)),
                            Some curvature_rad))))
             | _ \<Rightarrow> Inl TypeError)))))"

text \<open>CALCULATE ABSOLUTE SHAPE PARAMETERS, run when a scale has been recorded.\<close>

definition calc_absolute :: "int \<Rightarrow> real option \<Rightarrow> real option \<Rightarrow> dict \<Rightarrow> error + dict" where
  "calc_absolute pts mm curv d =
     (if d ''im_mm_per_px'' \<noteq> None then
        (case mm of
           None \<Rightarrow> Inl NameError
         | Some mm_per_px \<Rightarrow>
             bnd (get_pt d ''im_p_length_1'') (\<lambda>l1.
             bnd (get_pt d ''im_p_length_2'') (\<lambda>l2.
             bnd (get_pt d ''im_p_midpoint_1'') (\<lambda>m1.
             bnd (get_pt d ''im_p_midpoint_2'') (\<lambda>m2.
               let length_straight = mm_per_px * distance (rp l1) (rp l2);
                   d1 = d(''im_status'' \<mapsto> StrV ''absolute'',
                          ''im_length_straight'' \<mapsto> FloatV length_straight,
                          ''im_width'' \<mapsto> FloatV (mm_per_px * distance (rp m1) (rp m2)))
               in if pts = 9 then
                    (case d1 ''im_radius_px'' of
                       None \<Rightarrow> Inl KeyError
                     | Some rv \<Rightarrow>
                         if rv = StrV ''DNE'' then
                           Inr (d1(''im_radius_mm'' \<mapsto> StrV ''DNE'',
                                   ''im_length_curved'' \<mapsto> FloatV length_straight))
                         else
                           (case rv of
                              FloatV radius \<Rightarrow>
                                (case curv of
                                   None \<Rightarrow> Inl NameError
                                 | Some curvature_rad \<Rightarrow>
                                     Inr (d1(''im_radius_mm'' \<mapsto> FloatV (mm_per_px * radius),
                                             ''im_length_curved'' \<mapsto>
                                                FloatV (curvature_rad * (mm_per_px * radius)))))
                            | _ \<Rightarrow> Inl TypeError))
                  else Inr d1)))))
      else Inr d)"

text \<open>CALCULATE RELATIVE SHAPE PARAMETERS, with the absolute ones nested in it.\<close>

definition calc_shape :: "int \<Rightarrow> real option \<Rightarrow> dict \<Rightarrow> error + dict" where
  "calc_shape pts mm d =
     (if pts = 5 \<or> pts = 9 then
        (let d1 = d(''im_status'' \<mapsto> StrV ''relative'') in
         bnd (get_pt d1 ''im_p_length_1'') (\<lambda>l1.
         bnd (get_pt d1 ''im_p_length_2'') (\<lambda>l2.
         bnd (get_pt d1 ''im_p_midpoint_1'') (\<lambda>m1.
         bnd (get_pt d1 ''im_p_midpoint_2'') (\<lambda>m2.
           let d2 = d1(''im_length_straight_px'' \<mapsto> FloatV (distance (rp l1) (rp l2)),
                       ''im_width_px'' \<mapsto> FloatV (distance (rp m1) (rp m2)))
           in bnd (if pts = 9 then bnd (calc_asym d2) calc_curvature else Inr (d2, None))
                (\<lambda>(d3, curv). calc_absolute pts mm curv d3))))))
      else Inr d)"

text \<open>
  The whole derivation that follows the click loop: box status, scaling, shape.
  \<open>answers\<close> are the operator's unit and reported scale-bar length.
\<close>

definition finalize :: "(string \<times> real) option \<Rightarrow> int \<Rightarrow> dict \<Rightarrow> error + dict" where
  "finalize answers pts d =
     bnd (calc_scaling answers (set_box_status d)) (\<lambda>(d1, mm). calc_shape pts mm d1)"

section \<open>One image\<close>

text \<open>
  What \<^verbatim>\<open>process_one_image\<close> takes from outside the program: whether the image file
  exists, the shape of the image read (\<open>None\<close> when it cannot be read), the shape
  the image library gives a resized crop, the mouse and key input, the lines typed
  at the console, and the conversions \<^verbatim>\<open>float(s)\<close> of a typed string (\<open>None\<close> for
  \<^verbatim>\<open>ValueError\<close>) and \<^verbatim>\<open>float(input())\<close> of a typed line (\<open>None\<close> when it raises).
\<close>

record env =
  isfile :: bool
  img_shape :: "(int \<times> int) option"
  resized :: resizer
  ticks :: "tick list"
  console :: "string list"
  py_float :: "string \<Rightarrow> real option"
  py_input :: "string \<Rightarrow> real option"

text \<open>\<^verbatim>\<open>img_path[-4:].lower() == '.png'\<close>.\<close>

definition is_png :: "string \<Rightarrow> bool" where
  "is_png path =
     (case drop (length path - 4) path of
        [a, b, c, d] \<Rightarrow>
          a = CHR ''.'' \<and> (b = CHR ''p'' \<or> b = CHR ''P'') \<and> (c = CHR ''n'' \<or> c = CHR ''N'')
            \<and> (d = CHR ''g'' \<or> d = CHR ''G'')
      | _ \<Rightarrow> False)"

text \<open>The defaults assigned to the globals before the loops; \<^verbatim>\<open>cx, cy\<close> keep their values.\<close>

definition init_session :: "int \<Rightarrow> int \<Rightarrow> session \<Rightarrow> session" where
  "init_session img_h img_w g =
     g\<lparr>px := -1, py := -1, mode := M_box, points := 1, sb_ends := 1,
       h_min := 0, w_min := 0, h_max := img_h, w_max := img_w,
       res_h := img_h, res_w := img_w, image_data := Map.empty\<rparr>"

text \<open>
  The qualitative questions: image type, three yes/no answers, then one line for the
  magnification, stored only when it converts to a float.
\<close>

definition questions ::
  "(string \<Rightarrow> real option) \<Rightarrow> string list \<Rightarrow> dict \<Rightarrow> (dict \<times> string list) option" where
  "questions flt cons d =
     (case ask (\<lambda>a. a \<in> set [''s'', ''t'', ''r'', ''d'', ''o'']) cons of
        None \<Rightarrow> None
      | Some (q_image_type, c1) \<Rightarrow>
     (case ask (\<lambda>a. a \<in> set [''y'', ''n'']) c1 of
        None \<Rightarrow> None
      | Some (q_development, c2) \<Rightarrow>
     (case ask (\<lambda>a. a \<in> set [''y'', ''n'']) c2 of
        None \<Rightarrow> None
      | Some (q_operculum, c3) \<Rightarrow>
     (case ask (\<lambda>a. a \<in> set [''y'', ''n'']) c3 of
        None \<Rightarrow> None
      | Some (q_geo_pattern, c4) \<Rightarrow>
     (case c4 of
        [] \<Rightarrow> None
      | mag_response # c5 \<Rightarrow>
          (let d1 = (case flt mag_response of
                       Some m \<Rightarrow> d(''im_magnification'' \<mapsto> FloatV m)
                     | None \<Rightarrow> d)
           in Some (d1(''im_q_image_type'' \<mapsto> StrV q_image_type,
                       ''im_q_development'' \<mapsto> StrV q_development,
                       ''im_q_operculum'' \<mapsto> StrV q_operculum,
                       ''im_q_geo_pattern'' \<mapsto> StrV q_geo_pattern), c5)))))))"

text \<open>
  The summary printed before the confirmation reads the straight length and the width
  by key whenever \<^verbatim>\<open>points >= 5\<close>; a missing key raises.
\<close>

definition need_key :: "dict \<Rightarrow> string \<Rightarrow> error + unit" where
  "need_key d k = (case d k of None \<Rightarrow> Inl KeyError | Some v \<Rightarrow> Inr ())"

definition print_summary :: "int \<Rightarrow> dict \<Rightarrow> error + unit" where
  "print_summary pts d =
     (if pts \<ge> 5 \<and> d ''im_mm_per_px'' \<noteq> None then
        bnd (need_key d ''im_length_straight'') (\<lambda>u. need_key d ''im_width'')
      else if pts \<ge> 5 \<and> d ''im_mm_per_px'' = None then
        bnd (need_key d ''im_length_straight_px'') (\<lambda>u. need_key d ''im_width_px'')
      else Inr ())"

text \<open>Saving the cropped image reads the four box bounds by key.\<close>

definition crop_bounds :: "dict \<Rightarrow> error + unit" where
  "crop_bounds d =
     bnd (need_key d ''im_box_h1'') (\<lambda>u.
     bnd (need_key d ''im_box_h2'') (\<lambda>u.
     bnd (need_key d ''im_box_w1'') (\<lambda>u. need_key d ''im_box_w2'')))"

text \<open>
  Everything after the click loop. The result is the returned dictionary and the
  globals, whose \<^verbatim>\<open>image_data\<close> is that same dictionary.
\<close>

definition finish :: "env \<Rightarrow> session \<Rightarrow> (dict \<times> session) outcome" where
  "finish E s =
     (case read_scale (py_input E) (image_data s) (console E) of
        Waits \<Rightarrow> Waits
      | Raises e \<Rightarrow> Raises e
      | Returns (answers, cons1) \<Rightarrow>
          (case finalize answers (points s) (image_data s) of
             Inl e \<Rightarrow> Raises e
           | Inr d \<Rightarrow>
               if d = Map.empty then
                 Returns ([''im_status'' \<mapsto> StrV ''none''],
                          s\<lparr>image_data := [''im_status'' \<mapsto> StrV ''none'']\<rparr>)
               else
                 (case questions (py_float E) cons1 d of
                    None \<Rightarrow> Waits
                  | Some (d1, cons2) \<Rightarrow>
                      (case print_summary (points s) d1 of
                         Inl e \<Rightarrow> Raises e
                       | Inr u \<Rightarrow>
                           (case ask (\<lambda>a. a \<in> set [''y'', ''n'']) cons2 of
                              None \<Rightarrow> Waits
                            | Some (q_confirm, cons3) \<Rightarrow>
                                if q_confirm = ''n'' then
                                  Returns (Map.empty, s\<lparr>image_data := Map.empty\<rparr>)
                                else
                                  (case crop_bounds d1 of
                                     Inl e \<Rightarrow> Raises e
                                   | Inr u \<Rightarrow> Returns (d1, s\<lparr>image_data := d1\<rparr>)))))))"

definition process_one_image :: "env \<Rightarrow> string \<Rightarrow> session \<Rightarrow> (dict \<times> session) outcome" where
  "process_one_image E img_path g =
     (if isfile E \<and> is_png img_path then
        (case img_shape E of
           None \<Rightarrow> Raises AttributeError
         | Some (img_h, img_w) \<Rightarrow>
             (case outer_loop (resized E) img_h img_w (ticks E) (init_session img_h img_w g) of
                Waits \<Rightarrow> Waits
              | Raises e \<Rightarrow> Raises e
              | Returns s \<Rightarrow> finish E s))
      else
        Returns ([''im_status'' \<mapsto> StrV ''missing''],
                 g\<lparr>mode := M_next, image_data := [''im_status'' \<mapsto> StrV ''missing'']\<rparr>))"

section \<open>Record store session\<close>

text \<open>
  A line of the input file with what \<^verbatim>\<open>eval\<close> makes of it: a dictionary, some other
  value, a \<^verbatim>\<open>SyntaxError\<close> (the one exception the source catches) or another
  exception.
\<close>

datatype evaled = EvDict dict | EvOther | EvSyntaxError | EvRaise error

datatype entry = Rec dict | NotDict

text \<open>
  The first loop of \<^verbatim>\<open>main\<close>: \<^verbatim>\<open>number_of_entries\<close> is incremented for every line,
  after the \<^verbatim>\<open>try\<close>; a line that does not parse is reported with the file's name.
\<close>

record reading =
  r_list :: "entry list"
  r_count :: nat
  r_log :: "(string \<times> string) list"

fun read_lines :: "string \<Rightarrow> (string \<times> evaled) list \<Rightarrow> reading \<Rightarrow> error + reading" where
  "read_lines dict_file [] r = Inr r"
| "read_lines dict_file ((line, ev) # rest) r =
     (case ev of
        EvDict d \<Rightarrow>
          read_lines dict_file rest (r\<lparr>r_list := r_list r @ [Rec d], r_count := r_count r + 1\<rparr>)
      | EvOther \<Rightarrow>
          read_lines dict_file rest (r\<lparr>r_list := r_list r @ [NotDict], r_count := r_count r + 1\<rparr>)
      | EvSyntaxError \<Rightarrow>
          read_lines dict_file rest (r\<lparr>r_count := r_count r + 1, r_log := r_log r @ [(dict_file, line)]\<rparr>)
      | EvRaise e \<Rightarrow> Inl e)"

definition get_str :: "dict \<Rightarrow> string \<Rightarrow> error + string" where
  "get_str d k = (case d k of None \<Rightarrow> Inl KeyError | Some (StrV t) \<Rightarrow> Inr t | Some _ \<Rightarrow> Inl TypeError)"

definition base_img_name :: "dict \<Rightarrow> error + string" where
  "base_img_name d =
     (if d ''cs'' \<noteq> None then
        bnd (get_str d ''b'') (\<lambda>b. bnd (get_str d ''cg'') (\<lambda>cg. bnd (get_str d ''cs'') (\<lambda>cs.
        bnd (get_str d ''ID'') (\<lambda>i. Inr (b @ ''_'' @ cg @ ''_'' @ cs @ ''_ID'' @ i)))))
      else if d ''cg'' \<noteq> None then
        bnd (get_str d ''b'') (\<lambda>b. bnd (get_str d ''cg'') (\<lambda>cg.
        bnd (get_str d ''ID'') (\<lambda>i. Inr (b @ ''_'' @ cg @ ''_ID'' @ i))))
      else
        bnd (get_str d ''b'') (\<lambda>b. bnd (get_str d ''g'') (\<lambda>g.
        bnd (get_str d ''ID'') (\<lambda>i. Inr (b @ ''_'' @ g @ ''_ID'' @ i)))))"

text \<open>\<^verbatim>\<open>print file_list[j]['im_status']+':'\<close>, run when the key is present.\<close>

definition print_status :: "dict \<Rightarrow> error + unit" where
  "print_status d =
     (case d ''im_status'' of
        None \<Rightarrow> Inr ()
      | Some (StrV t) \<Rightarrow> Inr ()
      | Some _ \<Rightarrow> Inl TypeError)"

text \<open>The three nested conditions under which an entry gets an annotation session.\<close>

definition unresolved :: "dict \<Rightarrow> bool" where
  "unresolved d = (case d ''im_status'' of None \<Rightarrow> True | Some v \<Rightarrow> v = StrV ''missing'')"

definition no_problem :: "dict \<Rightarrow> bool" where
  "no_problem d =
     (case d ''problem'' of
        None \<Rightarrow> True
      | Some v \<Rightarrow> v \<notin> set [StrV ''no_taxonomy'', StrV ''no_name'', StrV ''order''])"

definition eligible :: "dict \<Rightarrow> bool" where
  "eligible d = (unresolved d \<and> no_problem d \<and> d ''i'' \<noteq> None)"

text \<open>\<^verbatim>\<open>file_list[j].update(image_dict)\<close>.\<close>

definition update_record :: "dict \<Rightarrow> dict \<Rightarrow> dict" where
  "update_record r image_dict = r ++ image_dict"

text \<open>
  The state of \<^verbatim>\<open>main\<close>: the list of entries, the globals and whether the global
  \<^verbatim>\<open>mode\<close> has been assigned yet (\<^verbatim>\<open>main\<close> itself never assigns it), and the last
  content written to the checkpoint file.
\<close>

record run =
  file_list :: "entry list"
  globals :: session
  mode_assigned :: bool
  out_file :: "entry list option"

text \<open>One pass of the second loop; the flag is the \<^verbatim>\<open>break\<close> on \<^verbatim>\<open>quit\<close>.\<close>

definition entry_step :: "(nat \<Rightarrow> env) \<Rightarrow> string \<Rightarrow> nat \<Rightarrow> run \<Rightarrow> (run \<times> bool) outcome" where
  "entry_step envs input_image_dir j r =
     (if j < length (file_list r) then
        (case file_list r ! j of
           NotDict \<Rightarrow> Raises TypeError
         | Rec d \<Rightarrow>
             (case bnd (base_img_name d) (\<lambda>n. bnd (print_status d) (\<lambda>u. Inr n)) of
                Inl e \<Rightarrow> Raises e
              | Inr base \<Rightarrow>
                  if eligible d then
                    (case need_key d ''g'' of
                       Inl e \<Rightarrow> Raises e
                     | Inr u \<Rightarrow>
                         (case process_one_image (envs j) (input_image_dir @ ''/'' @ base @ ''.png'')
                                 (globals r) of
                            Waits \<Rightarrow> Waits
                          | Raises e \<Rightarrow> Raises e
                          | Returns (image_dict, g) \<Rightarrow>
                              if mode g = M_quit then
                                Returns (r\<lparr>globals := g, mode_assigned := True\<rparr>, True)
                              else
                                (let fl = (file_list r)[j := Rec (update_record d image_dict)]
                                 in Returns (r\<lparr>file_list := fl, globals := g, mode_assigned := True,
                                               out_file := Some fl\<rparr>, False))))
                  else Returns (r, False)))
      else Raises IndexError)"

fun entries_loop :: "(nat \<Rightarrow> env) \<Rightarrow> string \<Rightarrow> nat list \<Rightarrow> run \<Rightarrow> run outcome" where
  "entries_loop envs input_image_dir [] r = Returns r"
| "entries_loop envs input_image_dir (j # js) r =
     (case entry_step envs input_image_dir j r of
        Waits \<Rightarrow> Waits
      | Raises e \<Rightarrow> Raises e
      | Returns (r1, brk) \<Rightarrow> if brk then Returns r1 else entries_loop envs input_image_dir js r1)"

text \<open>
  \<^verbatim>\<open>main\<close>. \<open>tmp_exists\<close> says whether \<^verbatim>\<open>tmp_out_file.txt\<close> is in the directory; \<open>g0\<close>
  holds the globals, none of them assigned yet. The last statement reads the
  global \<^verbatim>\<open>mode\<close> and raises \<^verbatim>\<open>NameError\<close> when no session has assigned it.
  The result carries the report of the lines that did not parse.
\<close>

definition main ::
  "bool \<Rightarrow> string \<Rightarrow> string \<Rightarrow> (string \<times> evaled) list \<Rightarrow> (nat \<Rightarrow> env) \<Rightarrow> session
     \<Rightarrow> (run \<times> (string \<times> string) list) outcome" where
  "main tmp_exists dict_file input_image_dir lines envs g0 =
     (if tmp_exists then
        Returns (\<lparr>file_list = [], globals = g0, mode_assigned = False, out_file = None\<rparr>, [])
      else
        (case read_lines dict_file lines \<lparr>r_list = [], r_count = 0, r_log = []\<rparr> of
           Inl e \<Rightarrow> Raises e
         | Inr rd \<Rightarrow>
             (case entries_loop envs input_image_dir [0..<r_count rd]
                     \<lparr>file_list = r_list rd, globals = g0, mode_assigned = False, out_file = None\<rparr> of
                Waits \<Rightarrow> Waits
              | Raises e \<Rightarrow> Raises e
              | Returns r \<Rightarrow>
                  if mode_assigned r then Returns (r, r_log rd) else Raises NameError)))"

section \<open>Keys and statuses\<close>

text \<open>A key of the image measurements starts with \<^verbatim>\<open>im_\<close>.\<close>

definition im_key :: "string \<Rightarrow> bool" where
  "im_key k = (take 3 k = ''im_'')"

definition im_dict :: "dict \<Rightarrow> bool" where
  "im_dict d = (\<forall>k. d k \<noteq> None \<longrightarrow> im_key k)"

text \<open>
  Once a pole has been clicked the counter has left 1, and the record holds the
  first pole until a reset clears both.
\<close>

definition pole_recorded :: "session \<Rightarrow> bool" where
  "pole_recorded s = (points s = 1 \<or> image_data s ''im_p_length_1'' \<noteq> None)"

text \<open>The statuses the specification lists for a record.\<close>

definition spec_statuses :: "string set" where
  "spec_statuses = {''box-only'', ''relative'', ''absolute'', ''missing''}"

text \<open>
  The angle the curvature block stores, as a function of the fitted circle, the egg
  middle and the two poles: the inverse cosine of the normalised dot product of the
  two radius vectors, replaced by \<open>2 * 3.1415\<close> minus itself when the egg middle is
  farther than the radius from the midpoint of the poles.
\<close>

definition arc_angle :: "fpoint \<Rightarrow> real \<Rightarrow> point \<Rightarrow> point \<Rightarrow> point \<Rightarrow> real" where
  "arc_angle c radius m l1 l2 =
     (let cosine = ((real_of_int (fst l1) - fst c) * (real_of_int (fst l2) - fst c)
                    + (real_of_int (snd l1) - snd c) * (real_of_int (snd l2) - snd c)) / radius\<^sup>2
      in if distance (rp m) (rp (midpoint l1 l2)) > radius
         then 2 * pi_src - arccos cosine else arccos cosine)"

text \<open>
  Two lists of entries agree outside the image measurements: same length, and each
  record keeps the value of every key that does not start with \<^verbatim>\<open>im_\<close>.
\<close>

definition keeps_fields :: "entry list \<Rightarrow> entry list \<Rightarrow> bool" where
  "keeps_fields fl fl' =
     (length fl' = length fl \<and>
      (\<forall>i<length fl. case fl ! i of
          NotDict \<Rightarrow> fl' ! i = NotDict
        | Rec d \<Rightarrow> (\<exists>d'. fl' ! i = Rec d' \<and> (\<forall>k. \<not> im_key k \<longrightarrow> d' k = d k))))"

section \<open>Scenario data\<close>

text \<open>Globals before any session, a session environment with no image file, and the
  landmarks and records used in the concrete runs below.\<close>

definition g0 :: session where
  "g0 = \<lparr>cx = 0, cy = 0, px = 0, py = 0, mode = M_box, points = 0, sb_ends = 0,
          h_min = 0, h_max = 0, w_min = 0, w_max = 0, res_h = 0, res_w = 0,
          image_data = Map.empty\<rparr>"

definition no_image :: env where
  "no_image = \<lparr>isfile = False, img_shape = None, resized = (\<lambda>a b c d f. None), ticks = [],
                console = [], py_float = (\<lambda>t. None), py_input = (\<lambda>t. None)\<rparr>"

definition four_points :: dict where
  "four_points =
     [''im_p_length_1'' \<mapsto> PtV (0, 0), ''im_p_length_2'' \<mapsto> PtV (100, 0),
      ''im_p_midpoint_1'' \<mapsto> PtV (50, -10), ''im_p_midpoint_2'' \<mapsto> PtV (50, 10)]"

definition apis_record :: dict where
  "apis_record =
     [''b'' \<mapsto> StrV ''smith1990'', ''g'' \<mapsto> StrV ''Apis'', ''ID'' \<mapsto> StrV ''7'',
      ''i'' \<mapsto> StrV ''12'']"

definition curved_egg :: dict where
  "curved_egg =
     [''im_p_egg_middle'' \<mapsto> PtV (0, 5), ''im_p_length_1'' \<mapsto> PtV (3, -4),
      ''im_p_length_2'' \<mapsto> PtV (-3, -4), ''im_p_circle_center'' \<mapsto> FPtV (0, 0),
      ''im_radius_px'' \<mapsto> FloatV 5]"

text \<open>A resizer that scales both sides of the crop by the factor and truncates.\<close>

definition scaling_resizer :: resizer where
  "scaling_resizer hmin hmax wmin wmax f =
     Some (py_int (f * real_of_int (hmax - hmin)), py_int (f * real_of_int (wmax - wmin)))"

text \<open>A session on a 100 by 100 image: two clicks in box mode, then \<^verbatim>\<open>n\<close>, the five
  answers and the confirmation.\<close>

definition box_env :: env where
  "box_env =
     \<lparr>isfile = True, img_shape = Some (100, 100), resized = scaling_resizer,
      ticks = [([LButtonUp 80 80], -1), ([LButtonUp 400 480], -1), ([], 110)],
      console = [''d'', ''n'', ''n'', ''n'', ''n'', ''y''],
      py_float = (\<lambda>t. None), py_input = (\<lambda>t. None)\<rparr>"

text \<open>A session on the same image where the operator presses \<^verbatim>\<open>n\<close> at once.\<close>

definition idle_env :: env where
  "idle_env =
     \<lparr>isfile = True, img_shape = Some (100, 100), resized = scaling_resizer,
      ticks = [([], 110)], console = [],
      py_float = (\<lambda>t. None), py_input = (\<lambda>t. None)\<rparr>"

section \<open>Arithmetic helpers\<close>

lemma sqrt_10000: "sqrt 10000 = 100"
  by (rule real_sqrt_unique) simp_all

lemma sqrt_400: "sqrt 400 = 20"
  by (rule real_sqrt_unique) simp_all

lemma sqrt_2500: "sqrt 2500 = 50"
  by (rule real_sqrt_unique) simp_all

lemma sqrt_25: "sqrt 25 = 5"
  by (rule real_sqrt_unique) simp_all

lemma sqrt_81: "sqrt 81 = 9"
  by (rule real_sqrt_unique) simp_all

lemma bnd_Inr: "bnd (Inr v) f = f v"
  by (simp add: bnd_def)

text \<open>
  The partial sums of the arctangent series bound it from both sides; with Machin's
  formula they place the constant of the source strictly below \<open>pi\<close>.
\<close>

lemma arctan_series_bounds:
  fixes x :: real
  assumes "0 \<le> x" "x \<le> 1"
  shows "(\<Sum>i<2*n. (-1)^i * (1 / real (i*2+1) * x^(i*2+1))) \<le> arctan x"
    and "arctan x \<le> (\<Sum>i<2*n+1. (-1)^i * (1 / real (i*2+1) * x^(i*2+1)))"
proof -
  let ?a = "\<lambda>n. 1 / real (n*2+1) * x^(n*2+1)"
  have ax: "\<bar>x\<bar> \<le> 1" using assms by simp
  have zero: "?a \<longlonglongrightarrow> 0" by (rule zeroseq_arctan_series[OF ax])
  have pos: "0 \<le> ?a n" for n using assms by simp
  have mono: "?a (Suc n) \<le> ?a n" for n
  proof (rule mult_mono)
    show "1 / real (Suc n * 2 + 1) \<le> 1 / real (n * 2 + 1)" by (rule frac_le) simp_all
    show "x ^ (Suc n * 2 + 1) \<le> x ^ (n * 2 + 1)" by (rule power_decreasing) (simp_all add: assms)
  qed (simp_all add: assms)
  have eq: "arctan x = (\<Sum>k. (-1)^k * ?a k)" by (rule arctan_series[OF ax])
  show "(\<Sum>i<2*n. (-1)^i * ?a i) \<le> arctan x"
    unfolding eq by (rule summable_Leibniz'(2)[of ?a, OF zero pos mono])
  show "arctan x \<le> (\<Sum>i<2*n+1. (-1)^i * ?a i)"
    unfolding eq by (rule summable_Leibniz'(4)[of ?a, OF zero pos mono])
qed

lemma pi_src_less_pi: "pi_src < pi"
proof -
  have lo: "(\<Sum>i<2*2. (-1)^i * (1 / real (i*2+1) * (1/5)^(i*2+1))) \<le> arctan (1/5::real)"
    by (rule arctan_series_bounds(1)[of "1/5" 2]) simp_all
  have hi: "arctan (1/239::real) \<le> (\<Sum>i<2*0+1. (-1)^i * (1 / real (i*2+1) * (1/239)^(i*2+1)))"
    by (rule arctan_series_bounds(2)[of "1/239" 0]) simp_all
  have lo': "(1/5 - 1/375 + 1/15625 - 1/546875 :: real) \<le> arctan (1/5)"
    using lo by (simp add: lessThan_nat_numeral lessThan_Suc power_divide)
  have hi': "arctan (1/239::real) \<le> 1/239"
    using hi by simp
  have "pi = 4 * (4 * arctan (1/5) - arctan (1/239))"
    using machin by simp
  with lo' hi' show ?thesis
    by (simp add: pi_src_def)
qed

section \<open>Circumcircle\<close>

text \<open>
  The intersection of the two perpendicular bisectors is equidistant from the three
  points, whenever the source's formulas are defined.
\<close>

lemma circumcenter_equidistant:
  fixes x1 y1 x2 y2 x3 y3 a b xc yc :: real
  assumes x21: "x2 \<noteq> x1" and x32: "x3 \<noteq> x2"
    and a: "a = (y2 - y1) / (x2 - x1)" and b: "b = (y3 - y2) / (x3 - x2)"
    and ab: "a \<noteq> b" and a0: "a \<noteq> 0"
    and xc: "xc = (a * b * (y1 - y3) + b * (x1 + x2) - a * (x2 + x3)) / (2 * (b - a))"
    and yc: "yc = (-1 / a) * (xc - (x1 + x2) / 2) + (y1 + y2) / 2"
  shows "(xc - x1)\<^sup>2 + (yc - y1)\<^sup>2 = (xc - x2)\<^sup>2 + (yc - y2)\<^sup>2"
    and "(xc - x2)\<^sup>2 + (yc - y2)\<^sup>2 = (xc - x3)\<^sup>2 + (yc - y3)\<^sup>2"
proof -
  have h1: "y2 - y1 = a * (x2 - x1)" using a x21 by simp
  have h2: "y3 - y2 = b * (x3 - x2)" using b x32 by simp
  have k1: "a * (2 * yc - (y1 + y2)) = - (2 * xc - (x1 + x2))"
    using yc a0 by (simp add: field_simps)
  have k2: "2 * (b - a) * xc = a * b * (y1 - y3) + b * (x1 + x2) - a * (x2 + x3)"
    using xc ab by (simp add: field_simps)
  have "(xc - x1)\<^sup>2 + (yc - y1)\<^sup>2 - ((xc - x2)\<^sup>2 + (yc - y2)\<^sup>2)
          = (x2 - x1) * (2 * xc - (x1 + x2)) + (y2 - y1) * (2 * yc - (y1 + y2))"
    by (simp add: power2_eq_square algebra_simps)
  also have "\<dots> = (x2 - x1) * ((2 * xc - (x1 + x2)) + a * (2 * yc - (y1 + y2)))"
    unfolding h1 by (simp add: algebra_simps)
  also have "\<dots> = 0" unfolding k1 by simp
  finally show "(xc - x1)\<^sup>2 + (yc - y1)\<^sup>2 = (xc - x2)\<^sup>2 + (yc - y2)\<^sup>2" by simp
  have "a * ((2 * xc - (x2 + x3)) + b * (2 * yc - (y2 + y3)))
          = a * (2 * xc - (x2 + x3)) + b * (a * (2 * yc - (y1 + y2)) + a * (y1 - y3))"
    by (simp add: algebra_simps)
  also have "\<dots> = - (2 * (b - a) * xc) + (a * b * (y1 - y3) + b * (x1 + x2) - a * (x2 + x3))"
    unfolding k1 by (simp add: algebra_simps)
  also have "\<dots> = 0" unfolding k2 by simp
  finally have e: "(2 * xc - (x2 + x3)) + b * (2 * yc - (y2 + y3)) = 0" using a0 by simp
  have "(xc - x2)\<^sup>2 + (yc - y2)\<^sup>2 - ((xc - x3)\<^sup>2 + (yc - y3)\<^sup>2)
          = (x3 - x2) * (2 * xc - (x2 + x3)) + (y3 - y2) * (2 * yc - (y2 + y3))"
    by (simp add: power2_eq_square algebra_simps)
  also have "\<dots> = (x3 - x2) * ((2 * xc - (x2 + x3)) + b * (2 * yc - (y2 + y3)))"
    unfolding h2 by (simp add: algebra_simps)
  also have "\<dots> = 0" unfolding e by simp
  finally show "(xc - x2)\<^sup>2 + (yc - y2)\<^sup>2 = (xc - x3)\<^sup>2 + (yc - y3)\<^sup>2" by simp
qed

lemma collinear3_rotate: "collinear3 q r p = collinear3 p q r"
  by (cases p; cases q; cases r) (auto simp: collinear3_def algebra_simps)

lemma reorder_cases:
  assumes "\<not> (fst pt1 = fst pt2 \<and> fst pt1 = fst pt3)"
  obtains p1 p2 p3 where "reorder pt1 pt2 pt3 = (p1, p2, p3)" "fst p2 \<noteq> fst p1" "fst p3 \<noteq> fst p2"
    "collinear3 p1 p2 p3 = collinear3 pt1 pt2 pt3"
    "{p1, p2, p3} = {pt1, pt2, pt3}"
proof (cases "fst pt1 = fst pt2")
  case True
  with assms have "reorder pt1 pt2 pt3 = (pt2, pt3, pt1)" "fst pt3 \<noteq> fst pt2" "fst pt1 \<noteq> fst pt3"
    by (auto simp: reorder_def)
  then show ?thesis using that[of pt2 pt3 pt1] by (auto simp: collinear3_rotate)
next
  case False
  show ?thesis
  proof (cases "fst pt2 = fst pt3")
    case True
    with False have "reorder pt1 pt2 pt3 = (pt3, pt1, pt2)" "fst pt1 \<noteq> fst pt3" "fst pt2 \<noteq> fst pt1"
      by (auto simp: reorder_def)
    moreover have "collinear3 pt3 pt1 pt2 = collinear3 pt1 pt2 pt3"
      by (rule collinear3_rotate[of pt1 pt2 pt3, symmetric])
    moreover have "{pt3, pt1, pt2} = {pt1, pt2, pt3}" by auto
    ultimately show ?thesis by (rule that[of pt3 pt1 pt2])
  next
    case f2: False
    with False have "reorder pt1 pt2 pt3 = (pt1, pt2, pt3)" by (auto simp: reorder_def)
    then show ?thesis using that[of pt1 pt2 pt3] False f2 by auto
  qed
qed

lemma slopes_equal_iff:
  fixes x1 y1 x2 y2 x3 y3 :: int
  assumes "x2 \<noteq> x1" "x3 \<noteq> x2"
  shows "(real_of_int (y2 - y1) / (real_of_int x2 - real_of_int x1)
           = real_of_int (y3 - y2) / (real_of_int x3 - real_of_int x2))
         = collinear3 (x1, y1) (x2, y2) (x3, y3)"
proof -
  have "(real_of_int (y2 - y1) / (real_of_int x2 - real_of_int x1)
           = real_of_int (y3 - y2) / (real_of_int x3 - real_of_int x2))
       = (real_of_int (y2 - y1) * (real_of_int x3 - real_of_int x2)
           = real_of_int (y3 - y2) * (real_of_int x2 - real_of_int x1))"
    using assms by (simp add: frac_eq_eq)
  also have "\<dots> = (real_of_int ((y2 - y1) * (x3 - x2)) = real_of_int ((y3 - y2) * (x2 - x1)))"
    by simp
  also have "\<dots> = ((y2 - y1) * (x3 - x2) = (y3 - y2) * (x2 - x1))"
    by (rule of_int_eq_iff)
  also have "\<dots> = collinear3 (x1, y1) (x2, y2) (x3, y3)"
    by (auto simp: collinear3_def algebra_simps)
  finally show ?thesis .
qed

lemma get_circle_center_normal_form:
  fixes x1 y1 x2 y2 x3 y3 :: int
  assumes nall: "\<not> (fst pt1 = fst pt2 \<and> fst pt1 = fst pt3)"
      and r: "reorder pt1 pt2 pt3 = ((x1, y1), (x2, y2), (x3, y3))"
      and n1: "x2 \<noteq> x1" and n2: "x3 \<noteq> x2"
      and a: "a = real_of_int (y2 - y1) / (real_of_int x2 - real_of_int x1)"
      and b: "b = real_of_int (y3 - y2) / (real_of_int x3 - real_of_int x2)"
      and xc: "xc = (a * b * real_of_int (y1 - y3) + b * real_of_int (x1 + x2)
                      - a * real_of_int (x2 + x3)) / (2 * (b - a))"
      and yc: "yc = (-1 / a) * (xc - real_of_int (x1 + x2) / 2) + real_of_int (y1 + y2) / 2"
  shows "get_circle_center pt1 pt2 pt3 =
           (if a = b then Inr DNE
            else if a = 0 then Inl ZeroDivisionError
            else Inr (Circle (xc, yc) (distance (xc, yc) (rp pt1))))"
proof -
  have fa: "fdiv (real_of_int (y2 - y1)) (real_of_int x2 - real_of_int x1) = Inr a"
    using n1 by (simp add: fdiv_def a)
  have fb: "fdiv (real_of_int (y3 - y2)) (real_of_int x3 - real_of_int x2) = Inr b"
    using n2 by (simp add: fdiv_def b)
  have unfolded: "get_circle_center pt1 pt2 pt3 =
      (if a = b then Inr DNE
       else bnd (fdiv (a * b * real_of_int (y1 - y3) + b * real_of_int (x1 + x2)
                        - a * real_of_int (x2 + x3)) (2 * (b - a))) (\<lambda>x_center.
            bnd (fdiv (-1) a) (\<lambda>neg_inv.
              let y_center = neg_inv * (x_center - real_of_int (x1 + x2) / 2)
                               + real_of_int (y1 + y2) / 2;
                  radius = distance (x_center, y_center) (rp pt1)
              in Inr (Circle (x_center, y_center) radius))))"
    unfolding get_circle_center_def
    by (simp only: nall if_False r prod.case fa fb bnd_Inr)
  show ?thesis
  proof (cases "a = b")
    case True
    then show ?thesis by (simp add: unfolded)
  next
    case False
    then have "2 * (b - a) \<noteq> 0" by simp
    then have fx: "fdiv (a * b * real_of_int (y1 - y3) + b * real_of_int (x1 + x2)
                        - a * real_of_int (x2 + x3)) (2 * (b - a)) = Inr xc"
      unfolding fdiv_def xc by (simp only: if_False)
    show ?thesis
    proof (cases "a = 0")
      case True
      with False show ?thesis
        by (simp only: unfolded fx bnd_Inr if_False) (simp add: fdiv_def bnd_def)
    next
      case a0: False
      then have fn: "fdiv (-1) a = Inr (-1 / a)" by (simp add: fdiv_def)
      from False a0 show ?thesis
        by (simp only: unfolded fx fn bnd_Inr if_False Let_def yc)
    qed
  qed
qed

lemma get_circle_center_analysis:
  obtains (all_x_equal) "fst pt1 = fst pt2" "fst pt1 = fst pt3" "collinear3 pt1 pt2 pt3"
      "get_circle_center pt1 pt2 pt3 = Inr DNE"
  | (collinear) "collinear3 pt1 pt2 pt3" "get_circle_center pt1 pt2 pt3 = Inr DNE"
  | (horizontal) "\<not> collinear3 pt1 pt2 pt3"
      "snd (fst (reorder pt1 pt2 pt3)) = snd (fst (snd (reorder pt1 pt2 pt3)))"
      "get_circle_center pt1 pt2 pt3 = Inl ZeroDivisionError"
  | (circle) c where "\<not> collinear3 pt1 pt2 pt3"
      "snd (fst (reorder pt1 pt2 pt3)) \<noteq> snd (fst (snd (reorder pt1 pt2 pt3)))"
      "get_circle_center pt1 pt2 pt3 = Inr (Circle c (distance c (rp pt1)))"
      "distance c (rp pt2) = distance c (rp pt1)" "distance c (rp pt3) = distance c (rp pt1)"
proof (cases "fst pt1 = fst pt2 \<and> fst pt1 = fst pt3")
  case True
  then show ?thesis
    by (intro all_x_equal) (auto simp: collinear3_def get_circle_center_def)
next
  case nall: False
  then obtain p1 p2 p3 where r: "reorder pt1 pt2 pt3 = (p1, p2, p3)" and n1: "fst p2 \<noteq> fst p1"
    and n2: "fst p3 \<noteq> fst p2" and c: "collinear3 p1 p2 p3 = collinear3 pt1 pt2 pt3"
    and perm: "{p1, p2, p3} = {pt1, pt2, pt3}"
    by (rule reorder_cases)
  obtain x1 y1 x2 y2 x3 y3 where p: "p1 = (x1, y1)" "p2 = (x2, y2)" "p3 = (x3, y3)"
    by (cases p1; cases p2; cases p3)
  define a where "a = real_of_int (y2 - y1) / (real_of_int x2 - real_of_int x1)"
  define b where "b = real_of_int (y3 - y2) / (real_of_int x3 - real_of_int x2)"
  define xc where "xc = (a * b * real_of_int (y1 - y3) + b * real_of_int (x1 + x2)
                      - a * real_of_int (x2 + x3)) / (2 * (b - a))"
  define yc where "yc = (-1 / a) * (xc - real_of_int (x1 + x2) / 2) + real_of_int (y1 + y2) / 2"
  have x21: "x2 \<noteq> x1" and x32: "x3 \<noteq> x2" using n1 n2 p by simp_all
  have nf: "get_circle_center pt1 pt2 pt3 =
           (if a = b then Inr DNE
            else if a = 0 then Inl ZeroDivisionError
            else Inr (Circle (xc, yc) (distance (xc, yc) (rp pt1))))"
    by (rule get_circle_center_normal_form[OF nall r[unfolded p] x21 x32 a_def b_def xc_def yc_def])
  have ab: "(a = b) = collinear3 pt1 pt2 pt3"
    unfolding a_def b_def using slopes_equal_iff[OF x21 x32, of y2 y1 y3] c p by simp
  have a0: "(a = 0) = (y1 = y2)" using x21 by (auto simp: a_def)
  have hor: "(snd (fst (reorder pt1 pt2 pt3)) = snd (fst (snd (reorder pt1 pt2 pt3)))) = (y1 = y2)"
    by (simp add: r p)
  show ?thesis
  proof (cases "collinear3 pt1 pt2 pt3")
    case True
    with nf ab show ?thesis by (intro collinear) simp_all
  next
    case nc: False
    show ?thesis
    proof (cases "y1 = y2")
      case True
      with nf ab a0 nc hor show ?thesis by (intro horizontal) simp_all
    next
      case False
      have e: "(xc - real_of_int x1)\<^sup>2 + (yc - real_of_int y1)\<^sup>2 = (xc - real_of_int x2)\<^sup>2 + (yc - real_of_int y2)\<^sup>2"
          "(xc - real_of_int x2)\<^sup>2 + (yc - real_of_int y2)\<^sup>2 = (xc - real_of_int x3)\<^sup>2 + (yc - real_of_int y3)\<^sup>2"
        using circumcenter_equidistant[of "real_of_int x2" "real_of_int x1" "real_of_int x3" a "real_of_int y2" "real_of_int y1"
                b "real_of_int y3" xc yc]
          x21 x32 ab nc a0 False
        by (simp_all add: a_def b_def xc_def yc_def)
      have d: "distance (xc, yc) (rp p1) = distance (xc, yc) (rp p2)"
              "distance (xc, yc) (rp p2) = distance (xc, yc) (rp p3)"
        using e by (simp_all add: distance_def rp_def p power2_commute[of xc] power2_commute[of yc])
      have "pt1 \<in> {p1, p2, p3}" "pt2 \<in> {p1, p2, p3}" "pt3 \<in> {p1, p2, p3}" using perm by auto
      with d have "distance (xc, yc) (rp pt2) = distance (xc, yc) (rp pt1)"
        "distance (xc, yc) (rp pt3) = distance (xc, yc) (rp pt1)" by auto
      with nf ab a0 nc hor False show ?thesis by (intro circle[of "(xc, yc)"]) simp_all
    qed
  qed
qed

lemma collinear_is_DNE:
  "collinear3 pt1 pt2 pt3 \<Longrightarrow> get_circle_center pt1 pt2 pt3 = Inr DNE"
  by (cases rule: get_circle_center_analysis[of pt1 pt2 pt3]) simp_all

lemma get_circle_center_raises_only_horizontal:
  assumes "get_circle_center pt1 pt2 pt3 = Inl e"
  shows "e = ZeroDivisionError" "\<not> collinear3 pt1 pt2 pt3"
    "snd (fst (reorder pt1 pt2 pt3)) = snd (fst (snd (reorder pt1 pt2 pt3)))"
  using assms by (cases rule: get_circle_center_analysis[of pt1 pt2 pt3]; simp)+

lemma distance_zero_iff: "distance c q = 0 \<longleftrightarrow> q = c"
  by (cases c; cases q) (auto simp: distance_def sum_power2_eq_zero_iff)

lemma get_circle_center_equidistant:
  assumes "get_circle_center pt1 pt2 pt3 = Inr (Circle c rad)"
  shows "distance c (rp pt1) = rad" "distance c (rp pt2) = rad" "distance c (rp pt3) = rad"
    "0 < rad"
proof -
  have all: "distance c (rp pt1) = rad \<and> distance c (rp pt2) = rad \<and> distance c (rp pt3) = rad
     \<and> \<not> collinear3 pt1 pt2 pt3"
    using assms by (cases rule: get_circle_center_analysis[of pt1 pt2 pt3]) simp_all
  then show "distance c (rp pt1) = rad" "distance c (rp pt2) = rad" "distance c (rp pt3) = rad"
    by simp_all
  have "0 \<le> rad" using all by (auto simp: distance_def)
  moreover have "rad \<noteq> 0"
  proof
    assume "rad = 0"
    with all have "rp pt1 = c" "rp pt2 = c" "rp pt3 = c" by (simp_all add: distance_zero_iff)
    then have "pt1 = pt2" "pt1 = pt3" by (auto simp: rp_def prod_eq_iff)
    with all show False by (simp add: collinear3_def)
  qed
  ultimately show "0 < rad" by simp
qed

lemma get_circle_center_returns:
  assumes "\<not> collinear3 pt1 pt2 pt3"
      and "snd (fst (reorder pt1 pt2 pt3)) \<noteq> snd (fst (snd (reorder pt1 pt2 pt3)))"
  shows "\<exists>c rad. get_circle_center pt1 pt2 pt3 = Inr (Circle c rad)"
  using assms by (cases rule: get_circle_center_analysis[of pt1 pt2 pt3]) auto

text \<open>
  C1. Claim: every division of \<^verbatim>\<open>get_circle_center\<close> has a denominator guarded to be
  non-zero, also for a horizontal first chord. The code divides \<open>-1\<close> by \<open>slope_a\<close>
  unguarded: for the points \<open>(0,0)\<close>, \<open>(2,0)\<close>, \<open>(1,1)\<close> the first chord is horizontal,
  the slopes \<open>0\<close> and \<open>-1\<close> differ, and the call raises \<^verbatim>\<open>ZeroDivisionError\<close>.
\<close>

theorem get_circle_center_horizontal_chord_raises:
  "get_circle_center (0, 0) (2, 0) (1, 1) = Inl ZeroDivisionError"
  by (simp add: get_circle_center_def reorder_def bnd_def fdiv_def)

text \<open>
  C7. Claim: for any three non-collinear points \<^verbatim>\<open>get_circle_center\<close> returns a centre
  at the returned radius from each of them. The right triangle \<open>(0,0)\<close>, \<open>(4,0)\<close>,
  \<open>(0,3)\<close> is not collinear, its circumcircle has centre \<open>(2, 3/2)\<close>, and the call
  raises instead of returning it.
\<close>

theorem get_circle_center_right_triangle_raises:
  "\<not> collinear3 (0, 0) (4, 0) (0, 3) \<and>
   get_circle_center (0, 0) (4, 0) (0, 3) = Inl ZeroDivisionError"
  by (simp add: get_circle_center_def reorder_def bnd_def fdiv_def collinear3_def)

section \<open>Viewport\<close>

text \<open>
  The two shifts keep the size of the window, and a window no larger than the
  current view ends inside it.
\<close>

lemma shift_into_keeps_size: "shift_into lo hi a b = (a', b') \<Longrightarrow> b' - a' = b - a"
  by (auto simp: shift_into_def Let_def split: if_splits)

lemma shift_into_inside:
  "shift_into lo hi a b = (a', b') \<Longrightarrow> b - a \<le> hi - lo \<Longrightarrow> lo \<le> a' \<and> b' \<le> hi"
  by (auto simp: shift_into_def Let_def split: if_splits)

lemma py_int_nonneg: "0 \<le> x \<Longrightarrow> 0 \<le> py_int x"
  by (simp add: py_int_def)

lemma py_int_le: "0 \<le> x \<Longrightarrow> x \<le> real_of_int n \<Longrightarrow> py_int x \<le> n"
  by (simp add: py_int_def floor_le_iff)

lemma calc_new_view_inside_view:
  assumes run: "calc_new_view hmin hmax wmin wmax rh rw ch cw = Inr (a, b, c, d)"
      and w: "wmin \<le> wmax"
      and fits: "py_int (screen_max_h * real_of_int (py_int (real_of_int (wmax - wmin) / zoom_scale))
                          / screen_max_w) \<le> hmax - hmin"
  shows "hmin \<le> a \<and> a \<le> b \<and> b \<le> hmax \<and> wmin \<le> c \<and> c \<le> d \<and> d \<le> wmax"
proof -
  define nww where "nww = py_int (real_of_int (wmax - wmin) / zoom_scale)"
  define nwh where "nwh = py_int (screen_max_h * real_of_int nww / screen_max_w)"
  have nww0: "0 \<le> nww" unfolding nww_def using w by (intro py_int_nonneg) (simp add: zoom_scale_def)
  have nwwle: "nww \<le> wmax - wmin" unfolding nww_def using w
    by (intro py_int_le) (simp_all add: zoom_scale_def)
  have nwh0: "0 \<le> nwh" unfolding nwh_def using nww0
    by (intro py_int_nonneg) (simp add: screen_max_h_def screen_max_w_def)
  have nwhle: "nwh \<le> hmax - hmin" using fits by (simp add: nwh_def nww_def)
  from run obtain oh ow where
    h: "shift_into hmin hmax (oh - nwh div 2) (oh + nwh div 2) = (a, b)" and
    v: "shift_into wmin wmax (ow - nww div 2) (ow + nww div 2) = (c, d)"
    by (auto simp: calc_new_view_def bnd_def fdiv_def Let_def nww_def nwh_def
        split: if_splits prod.splits)
  have hd: "0 \<le> 2 * (nwh div 2) \<and> 2 * (nwh div 2) \<le> nwh" using nwh0 by presburger
  have wd: "0 \<le> 2 * (nww div 2) \<and> 2 * (nww div 2) \<le> nww" using nww0 by presburger
  have hs: "b - a = 2 * (nwh div 2)" using shift_into_keeps_size[OF h] by simp
  have ws: "d - c = 2 * (nww div 2)" using shift_into_keeps_size[OF v] by simp
  have "(oh + nwh div 2) - (oh - nwh div 2) \<le> hmax - hmin" using hd nwhle by linarith
  then have "hmin \<le> a \<and> b \<le> hmax" by (rule shift_into_inside[OF h])
  moreover have "(ow + nww div 2) - (ow - nww div 2) \<le> wmax - wmin" using wd nwwle by linarith
  then have "wmin \<le> c \<and> d \<le> wmax" by (rule shift_into_inside[OF v])
  ultimately show ?thesis using hs ws hd wd by linarith
qed

text \<open>
  C4. Claim: the rectangle produced by \<^verbatim>\<open>calc_new_view\<close> stays inside the image. On
  an image 100 high and 1000 wide shown in full (displayed at 140 by 1400), a
  right-click in the middle asks for a window 769 wide and 439 high; it is taller
  than the image, the second shift undoes the first, and the new view starts at row
  \<open>-338\<close>.
\<close>

theorem calc_new_view_leaves_image:
  "inside_image 100 1000 (0, 100, 0, 1000) \<and>
   calc_new_view 0 100 0 1000 140 1400 70 700 = Inr (-338, 100, 116, 884) \<and>
   \<not> inside_image 100 1000 (-338, 100, 116, 884)"
  by (simp add: calc_new_view_def bnd_def fdiv_def py_int_def zoom_scale_def screen_max_h_def
        screen_max_w_def shift_into_def inside_image_def Let_def)

section \<open>Clicks and keys\<close>

text \<open>
  In the 4-point mode after four clicks and in the 8-point mode after eight, a
  left-click changes nothing but the remembered window position of the last click.
\<close>

lemma finished_points_mode_ignores_clicks:
  assumes "(mode s = M_4points \<and> points s = 5) \<or> (mode s = M_8points \<and> points s = 9)"
  shows "fst (annotate_image (LButtonUp x y) s) = s \<or>
         fst (annotate_image (LButtonUp x y) s) = s\<lparr>px := x, py := y\<rparr>"
  using assms
  by (auto simp: annotate_image_def points_click_def split: sum.splits)

text \<open>
  C5. Claim: once a point-collection mode has its clicks, a further left-click in that
  mode changes no stored landmark. In scale-bar mode the counter stays at 2 after the
  second click, so a third click at \<open>(50,50)\<close> replaces the second end \<open>(20,20)\<close>.
\<close>

theorem scale_bar_third_click_overwrites:
  "(let s2 = deliver [LButtonUp 10 10, LButtonUp 20 20]
               (fst (key_step 115 (init_session 100 100 g0)))
    in mode s2 = M_scale_bar \<and> sb_ends s2 = 2 \<and>
       image_data s2 ''im_p_scale_bar_1'' = Some (PtV (10, 10)) \<and>
       image_data s2 ''im_p_scale_bar_2'' = Some (PtV (20, 20)) \<and>
       image_data (deliver [LButtonUp 50 50] s2) ''im_p_scale_bar_2'' = Some (PtV (50, 50)))"
  by (simp add: g0_def init_session_def key_step_def annotate_image_def scale_bar_click_def
        put_def raw_coord_def bnd_def fdiv_def py_int_def Let_def)

text \<open>
  C6, as stated: a mode-select key discards the landmarks recorded under that mode.
  It fails: with pole A recorded at \<open>(3,4)\<close>, the key \<^verbatim>\<open>4\<close> resets the counter and
  leaves the landmark in the record.
\<close>

theorem key_4_keeps_landmark:
  "(let s = put ''im_p_length_1'' (PtV (3, 4)) (init_session 100 100 g0)
    in points (fst (key_step 52 s)) = 1 \<and>
       image_data (fst (key_step 52 s)) ''im_p_length_1'' = Some (PtV (3, 4)))"
  by (simp add: g0_def init_session_def key_step_def put_def Let_def)

text \<open>
  C6, amended: the keys \<^verbatim>\<open>8\<close> and \<^verbatim>\<open>4\<close> select their mode and reset the click
  counter to 1, the key \<^verbatim>\<open>s\<close> selects scale-bar mode; none of them breaks the loop
  or changes the accumulating record, whose landmarks stay until later clicks
  overwrite them.
\<close>

theorem mode_keys_keep_record:
  "key_step 56 s = (s\<lparr>mode := M_8points, points := 1\<rparr>, False) \<and>
   key_step 52 s = (s\<lparr>mode := M_4points, points := 1\<rparr>, False) \<and>
   mode (fst (key_step 115 s)) = M_scale_bar \<and> \<not> snd (key_step 115 s) \<and>
   image_data (fst (key_step 56 s)) = image_data s \<and>
   image_data (fst (key_step 52 s)) = image_data s \<and>
   image_data (fst (key_step 115 s)) = image_data s"
  by (simp add: key_step_def)

section \<open>Invariants of the interaction loop\<close>

text \<open>
  A property of the globals that every callback, every key and every step of the
  outer loop keeps holds when the loops return.
\<close>

lemma deliver_invariant:
  assumes step: "\<And>ev s. P s \<Longrightarrow> P (fst (annotate_image ev s))"
  shows "P s \<Longrightarrow> P (deliver evs s)"
  by (induction evs arbitrary: s) (simp_all add: step)

lemma inner_loop_invariant:
  assumes click: "\<And>ev s. P s \<Longrightarrow> P (fst (annotate_image ev s))"
      and key: "\<And>k s. P s \<Longrightarrow> P (fst (key_step k s))"
      and res: "\<And>s rh rw. P s \<Longrightarrow> P (s\<lparr>res_h := rh, res_w := rw\<rparr>)"
  shows "inner_loop rz ts s = Returns (s1, ts1) \<Longrightarrow> P s \<Longrightarrow> P s1"
proof (induction rz ts s rule: inner_loop.induct)
  case (1 rz s)
  then show ?case by (auto split: sum.splits if_splits simp: res)
next
  case (2 rz evs k ts s)
  show ?case
  proof (cases "make_new_view rz (h_min s) (h_max s) (w_min s) (w_max s)")
    case (Inl e)
    with 2 show ?thesis by simp
  next
    case (Inr sh)
    obtain rh rw where sh: "sh = (rh, rw)" by (cases sh)
    show ?thesis
    proof (cases "mode s = M_zoom_in")
      case True
      with 2 Inr sh show ?thesis by (auto simp: res)
    next
      case False
      let ?s1 = "deliver evs (s\<lparr>res_h := rh, res_w := rw\<rparr>)"
      obtain s2 brk where ks: "key_step k ?s1 = (s2, brk)" by (cases "key_step k ?s1")
      have "P ?s1" using 2(3) by (intro deliver_invariant[of P] click res)
      then have p2: "P s2" using key[of ?s1 k] ks by simp
      show ?thesis
      proof (cases brk)
        case True
        with 2(2) Inr sh False ks p2 show ?thesis by simp
      next
        case nb: False
        with 2(2) Inr sh False ks have "inner_loop rz ts s2 = Returns (s1, ts1)" by simp
        with 2(1)[OF Inr sh[symmetric] False ks[symmetric]] nb p2 show ?thesis by simp
      qed
    qed
  qed
qed

lemma outer_loop_invariant:
  assumes click: "\<And>ev s. P s \<Longrightarrow> P (fst (annotate_image ev s))"
      and key: "\<And>k s. P s \<Longrightarrow> P (fst (key_step k s))"
      and res: "\<And>s rh rw. P s \<Longrightarrow> P (s\<lparr>res_h := rh, res_w := rw\<rparr>)"
      and zin: "\<And>s s'. P s \<Longrightarrow> zoomed_in s = Inr s' \<Longrightarrow> P s'"
      and zout: "\<And>s h w. P s \<Longrightarrow> P (zoomed_out h w s)"
      and reset: "\<And>s h w. P s \<Longrightarrow> P (reset_all h w s)"
  shows "outer_loop rz img_h img_w ts s = Returns s' \<Longrightarrow> P s \<Longrightarrow> P s'"
proof (induction rz img_h img_w ts s rule: outer_loop.induct)
  case (1 rz img_h img_w ts s)
  note IH = "1.IH" and run = "1.prems"(1) and Ps = "1.prems"(2)
  show ?case
  proof (cases "inner_loop rz ts s")
    case Waits
    with run show ?thesis by (simp add: outer_loop.simps[of rz img_h img_w ts s])
  next
    case (Raises e)
    with run show ?thesis by (simp add: outer_loop.simps[of rz img_h img_w ts s])
  next
    case (Returns x)
    obtain s1 ts1 where x: "x = (s1, ts1)" by (cases x)
    have P1: "P s1" using inner_loop_invariant[of P, OF click key res] Returns x Ps by blast
    show ?thesis
    proof (cases "mode s1 = M_quit \<or> mode s1 = M_next")
      case True
      with run Returns x P1 show ?thesis by (simp add: outer_loop.simps[of rz img_h img_w ts s])
    next
      case nq: False
      show ?thesis
      proof (cases "mode s1 = M_zoom_in")
        case True
        show ?thesis
        proof (cases "zoomed_in s1")
          case (Inl e)
          with run Returns x nq True show ?thesis
            by (simp add: outer_loop.simps[of rz img_h img_w ts s])
        next
          case (Inr s2)
          with run Returns x nq True have "outer_loop rz img_h img_w ts1 s2 = Returns s'"
            by (simp add: outer_loop.simps[of rz img_h img_w ts s])
          moreover have "P s2" using zin[OF P1 Inr] .
          ultimately show ?thesis using IH(1)[OF Returns x[symmetric] nq True Inr] by simp
        qed
      next
        case nz: False
        show ?thesis
        proof (cases "mode s1 = M_zoom_out")
          case True
          with run Returns x nq nz
          have "outer_loop rz img_h img_w ts1 (zoomed_out img_h img_w s1) = Returns s'"
            by (simp add: outer_loop.simps[of rz img_h img_w ts s])
          then show ?thesis using IH(2)[OF Returns x[symmetric] nq nz True] zout[OF P1] by simp
        next
          case no: False
          show ?thesis
          proof (cases "mode s1 = M_reset")
            case True
            with run Returns x nq nz no
            have "outer_loop rz img_h img_w ts1 (reset_all img_h img_w s1) = Returns s'"
              by (simp add: outer_loop.simps[of rz img_h img_w ts s])
            then show ?thesis using IH(3)[OF Returns x[symmetric] nq nz no True] reset[OF P1] by simp
          next
            case False
            with run Returns x nq nz no
            have "outer_loop rz img_h img_w ts1 s1 = Returns s'"
              by (simp add: outer_loop.simps[of rz img_h img_w ts s])
            then show ?thesis using IH(4)[OF Returns x[symmetric] nq nz no False] P1 by simp
          qed
        qed
      qed
    qed
  qed
qed

section \<open>Every key of the measurements starts with im\<close>

lemma im_dict_empty: "im_dict Map.empty"
  by (simp add: im_dict_def)

lemma im_dict_upd: "im_key k \<Longrightarrow> im_dict d \<Longrightarrow> im_dict (d(k \<mapsto> v))"
  by (simp add: im_dict_def)

lemma im_dict_put: "im_key k \<Longrightarrow> im_dict (image_data s) \<Longrightarrow> im_dict (image_data (put k v s))"
  by (simp add: put_def im_dict_upd)

lemma box_click_im: "box_click x y s = (s', e) \<Longrightarrow> im_dict (image_data s) \<Longrightarrow> im_dict (image_data s')"
  by (auto simp: box_click_def Let_def im_dict_put im_key_def split: sum.splits prod.splits if_splits)

lemma points_click_im: "points_click p s = (s', e) \<Longrightarrow> im_dict (image_data s) \<Longrightarrow> im_dict (image_data s')"
  by (auto simp: points_click_def Let_def im_dict_put im_key_def split: sum.splits prod.splits if_splits)

lemma scale_bar_click_im: "scale_bar_click p s = (s', e) \<Longrightarrow> im_dict (image_data s) \<Longrightarrow> im_dict (image_data s')"
  by (auto simp: scale_bar_click_def Let_def im_dict_put im_key_def split: sum.splits prod.splits if_splits)

lemma annotate_image_im: "im_dict (image_data s) \<Longrightarrow> im_dict (image_data (fst (annotate_image ev s)))"
  by (auto simp: annotate_image_def split: mouse.splits sum.splits prod.splits option.splits if_splits
      dest: box_click_im points_click_im scale_bar_click_im)

lemma outer_loop_im:
  assumes "outer_loop rz img_h img_w ts s = Returns s'" "im_dict (image_data s)"
  shows "im_dict (image_data s')"
proof (rule outer_loop_invariant[of "\<lambda>s. im_dict (image_data s)", OF _ _ _ _ _ _ assms])
  show "\<And>ev s. im_dict (image_data s) \<Longrightarrow> im_dict (image_data (fst (annotate_image ev s)))"
    by (rule annotate_image_im)
qed (auto simp: key_step_def zoomed_in_def zoomed_out_def reset_all_def bnd_def im_dict_empty
      split: sum.splits prod.splits)

lemma calc_scaling_im: "calc_scaling a d = Inr (d', mm) \<Longrightarrow> im_dict d \<Longrightarrow> im_dict d'"
  by (auto simp: calc_scaling_def Let_def bnd_def im_dict_upd im_key_def split: option.splits sum.splits prod.splits)

lemma calc_asym_im: "calc_asym d = Inr d' \<Longrightarrow> im_dict d \<Longrightarrow> im_dict d'"
  by (auto simp: calc_asym_def Let_def bnd_def im_dict_upd im_key_def split: option.splits sum.splits prod.splits)

lemma calc_curvature_im: "calc_curvature d = Inr (d', c) \<Longrightarrow> im_dict d \<Longrightarrow> im_dict d'"
  by (auto simp: calc_curvature_def Let_def bnd_def im_dict_upd im_key_def
      split: option.splits sum.splits prod.splits if_splits val.splits)

lemma calc_absolute_im: "calc_absolute pts mm c d = Inr d' \<Longrightarrow> im_dict d \<Longrightarrow> im_dict d'"
  by (auto simp: calc_absolute_def Let_def bnd_def im_dict_upd im_key_def
      split: option.splits sum.splits prod.splits if_splits val.splits)

lemma calc_shape_im: "calc_shape pts mm d = Inr d' \<Longrightarrow> im_dict d \<Longrightarrow> im_dict d'"
  by (auto simp: calc_shape_def Let_def bnd_def im_dict_upd im_key_def
      split: option.splits sum.splits prod.splits if_splits
      dest!: calc_asym_im calc_curvature_im calc_absolute_im)

lemma set_box_status_im: "im_dict d \<Longrightarrow> im_dict (set_box_status d)"
  by (simp add: set_box_status_def im_dict_upd im_key_def)

lemma finalize_im: "finalize a pts d = Inr d' \<Longrightarrow> im_dict d \<Longrightarrow> im_dict d'"
  by (auto simp: finalize_def bnd_def split: sum.splits prod.splits
      dest: calc_scaling_im[OF _ set_box_status_im] calc_shape_im)

lemma questions_im: "questions flt cons d = Some (d', cons') \<Longrightarrow> im_dict d \<Longrightarrow> im_dict d'"
  by (auto simp: questions_def Let_def im_dict_upd im_key_def split: option.splits list.splits prod.splits)

lemma finish_im: "finish E s = Returns (d, g) \<Longrightarrow> im_dict (image_data s) \<Longrightarrow> im_dict d"
  by (auto simp: finish_def im_dict_empty im_dict_upd im_key_def
      split: outcome.splits sum.splits prod.splits option.splits if_splits
      dest: finalize_im questions_im)

lemma process_one_image_im: "process_one_image E path g = Returns (d, g') \<Longrightarrow> im_dict d"
  by (auto simp: process_one_image_def im_dict_empty im_dict_upd im_key_def init_session_def
      split: outcome.splits option.splits prod.splits if_splits
      dest!: outer_loop_im finish_im)  

section \<open>The first pole stays recorded\<close>

lemma box_click_pole: "box_click x y s = (s', e) \<Longrightarrow> pole_recorded s \<Longrightarrow> pole_recorded s'"
  by (auto simp: box_click_def Let_def pole_recorded_def put_def split: sum.splits prod.splits if_splits)

lemma points_click_pole: "points_click p s = (s', e) \<Longrightarrow> pole_recorded s \<Longrightarrow> pole_recorded s'"
  by (auto simp: points_click_def Let_def pole_recorded_def put_def split: sum.splits prod.splits if_splits)

lemma scale_bar_click_pole: "scale_bar_click p s = (s', e) \<Longrightarrow> pole_recorded s \<Longrightarrow> pole_recorded s'"
  by (auto simp: scale_bar_click_def Let_def pole_recorded_def put_def split: sum.splits prod.splits if_splits)

lemma pole_recorded_px: "pole_recorded (s\<lparr>px := a, py := b\<rparr>) = pole_recorded s"
  by (simp add: pole_recorded_def)

lemma annotate_image_pole: "pole_recorded s \<Longrightarrow> pole_recorded (fst (annotate_image ev s))"
  by (auto simp: annotate_image_def pole_recorded_px split: mouse.splits sum.splits prod.splits option.splits if_splits
      dest: box_click_pole points_click_pole scale_bar_click_pole) (simp add: pole_recorded_def)

lemma outer_loop_pole:
  assumes "outer_loop rz img_h img_w ts s = Returns s'" "pole_recorded s"
  shows "pole_recorded s'"
proof (rule outer_loop_invariant[of pole_recorded, OF _ _ _ _ _ _ assms])
  show "\<And>ev s. pole_recorded s \<Longrightarrow> pole_recorded (fst (annotate_image ev s))"
    by (rule annotate_image_pole)
qed (auto simp: key_step_def zoomed_in_def zoomed_out_def reset_all_def bnd_def pole_recorded_def
      split: sum.splits prod.splits)

lemma finish_empty:
  assumes "image_data s = Map.empty" "points s = 1"
  shows "finish E s = Returns ([''im_status'' \<mapsto> StrV ''none''], s\<lparr>image_data := [''im_status'' \<mapsto> StrV ''none'']\<rparr>)"
  using assms
  by (simp add: finish_def read_scale_def finalize_def set_box_status_def calc_scaling_def calc_shape_def bnd_def)

section \<open>Finalizer scenarios\<close>

text \<open>
  C8. With the four landmarks pole A \<open>(0,0)\<close>, pole B \<open>(100,0)\<close>, mid A \<open>(50,-10)\<close>,
  mid B \<open>(50,10)\<close> and four clicks counted (\<^verbatim>\<open>points\<close> is 5), the finalizer stores the
  length 100 and the width 20 in pixels and the status \<^verbatim>\<open>relative\<close>. With the
  scale-bar ends \<open>(0,0)\<close>, \<open>(0,50)\<close> and the answers \<^verbatim>\<open>m\<close> and 5 it stores 0.1
  millimetres per pixel, the length 10, the width 2 and the status \<^verbatim>\<open>absolute\<close>.
\<close>

theorem four_point_scenario:
  "(\<exists>d. finalize None 5 four_points = Inr d \<and>
        d ''im_length_straight_px'' = Some (FloatV 100) \<and>
        d ''im_width_px'' = Some (FloatV 20) \<and>
        d ''im_status'' = Some (StrV ''relative'')) \<and>
   (\<exists>d. finalize (Some (''m'', 5)) 5
           (four_points(''im_p_scale_bar_1'' \<mapsto> PtV (0, 0), ''im_p_scale_bar_2'' \<mapsto> PtV (0, 50)))
           = Inr d \<and>
        d ''im_mm_per_px'' = Some (FloatV (1 / 10)) \<and>
        d ''im_length_straight'' = Some (FloatV 10) \<and>
        d ''im_width'' = Some (FloatV 2) \<and>
        d ''im_status'' = Some (StrV ''absolute''))"
  by (simp add: finalize_def four_points_def set_box_status_def calc_scaling_def calc_shape_def
        calc_absolute_def bnd_def get_pt_def distance_def rp_def fdiv_def
        sqrt_10000 sqrt_400 sqrt_2500 Let_def)

section \<open>Curvature\<close>

lemma curved_egg_fit: "get_circle_center (0, 5) (3, -4) (-3, -4) = Inr (Circle (0, 0) 5)"
  by (simp add: get_circle_center_def reorder_def bnd_def fdiv_def distance_def rp_def sqrt_25)

lemma curved_egg_displacement: "distance (rp (0, 5)) (rp (midpoint (3, -4) (-3, -4))) = 9"
  by (simp add: distance_def rp_def midpoint_def sqrt_81)

text \<open>
  C2, amended: when the fit on the egg middle and the two poles returned a circle, the
  stored angle is the inverse cosine of the normalised dot product of the two radius
  vectors, replaced by \<open>2 * 3.1415\<close> minus itself whenever the egg middle is farther
  than the radius from the midpoint of the poles; the curved length in pixels is
  that angle times the radius; when the radius is the marker \<^verbatim>\<open>'DNE'\<close> both
  curvature values are zero.
\<close>

theorem curvature_derivation:
  "(d ''im_radius_px'' = Some (radius_val DNE) \<longrightarrow>
      calc_curvature d = Inr (d(''im_curvature_deg'' \<mapsto> IntV 0, ''im_curvature_rad'' \<mapsto> IntV 0), None)) \<and>
   (get_circle_center m l1 l2 = Inr (Circle c radius) \<and>
    d ''im_p_egg_middle'' = Some (PtV m) \<and> d ''im_p_length_1'' = Some (PtV l1) \<and>
    d ''im_p_length_2'' = Some (PtV l2) \<and>
    d ''im_p_circle_center'' = Some (center_val (Circle c radius)) \<and>
    d ''im_radius_px'' = Some (radius_val (Circle c radius)) \<longrightarrow>
      calc_curvature d =
        Inr (d(''im_curvature_deg'' \<mapsto> FloatV (arc_angle c radius m l1 l2 * 180 / pi_src),
               ''im_curvature_rad'' \<mapsto> FloatV (arc_angle c radius m l1 l2),
               ''im_length_curved_px'' \<mapsto> FloatV (arc_angle c radius m l1 l2 * radius)),
             Some (arc_angle c radius m l1 l2)))"
proof (intro conjI impI)
  assume "d ''im_radius_px'' = Some (radius_val DNE)"
  then show "calc_curvature d = Inr (d(''im_curvature_deg'' \<mapsto> IntV 0, ''im_curvature_rad'' \<mapsto> IntV 0), None)"
    by (simp add: calc_curvature_def radius_val_def)
next
  assume h: "get_circle_center m l1 l2 = Inr (Circle c radius) \<and>
    d ''im_p_egg_middle'' = Some (PtV m) \<and> d ''im_p_length_1'' = Some (PtV l1) \<and>
    d ''im_p_length_2'' = Some (PtV l2) \<and>
    d ''im_p_circle_center'' = Some (center_val (Circle c radius)) \<and>
    d ''im_radius_px'' = Some (radius_val (Circle c radius))"
  then have "0 < radius" using get_circle_center_equidistant(4) by blast
  then have "radius\<^sup>2 \<noteq> 0" by simp
  with h show "calc_curvature d =
        Inr (d(''im_curvature_deg'' \<mapsto> FloatV (arc_angle c radius m l1 l2 * 180 / pi_src),
               ''im_curvature_rad'' \<mapsto> FloatV (arc_angle c radius m l1 l2),
               ''im_length_curved_px'' \<mapsto> FloatV (arc_angle c radius m l1 l2 * radius)),
             Some (arc_angle c radius m l1 l2))"
    by (simp add: calc_curvature_def radius_val_def center_val_def get_pt_def get_fpt_def
          bnd_def fdiv_def arc_angle_def Let_def)
qed

theorem curvature_derivation_witness:
  "calc_curvature curved_egg =
     Inr (curved_egg(''im_curvature_deg'' \<mapsto> FloatV ((2 * pi_src - arccos (7 / 25)) * 180 / pi_src),
                     ''im_curvature_rad'' \<mapsto> FloatV (2 * pi_src - arccos (7 / 25)),
                     ''im_length_curved_px'' \<mapsto> FloatV ((2 * pi_src - arccos (7 / 25)) * 5)),
          Some (2 * pi_src - arccos (7 / 25))) \<and>
   calc_curvature (curved_egg(''im_radius_px'' \<mapsto> StrV ''DNE'')) =
     Inr (curved_egg(''im_radius_px'' \<mapsto> StrV ''DNE'', ''im_curvature_deg'' \<mapsto> IntV 0,
                     ''im_curvature_rad'' \<mapsto> IntV 0), None)"
proof -
  have a: "arc_angle (0, 0) 5 (0, 5) (3, -4) (-3, -4) = 2 * pi_src - arccos (7 / 25)"
    using curved_egg_displacement by (simp add: arc_angle_def)
  have "calc_curvature curved_egg =
        Inr (curved_egg(''im_curvature_deg'' \<mapsto> FloatV (arc_angle (0, 0) 5 (0, 5) (3, -4) (-3, -4) * 180 / pi_src),
               ''im_curvature_rad'' \<mapsto> FloatV (arc_angle (0, 0) 5 (0, 5) (3, -4) (-3, -4)),
               ''im_length_curved_px'' \<mapsto> FloatV (arc_angle (0, 0) 5 (0, 5) (3, -4) (-3, -4) * 5)),
             Some (arc_angle (0, 0) 5 (0, 5) (3, -4) (-3, -4)))"
    using curvature_derivation[of curved_egg "(0, 5)" "(3, -4)" "(-3, -4)" "(0, 0)" 5] curved_egg_fit
    by (simp add: curved_egg_def center_val_def radius_val_def)
  moreover have "calc_curvature (curved_egg(''im_radius_px'' \<mapsto> StrV ''DNE'')) =
     Inr (curved_egg(''im_radius_px'' \<mapsto> StrV ''DNE'', ''im_curvature_deg'' \<mapsto> IntV 0,
                     ''im_curvature_rad'' \<mapsto> IntV 0), None)"
    using curvature_derivation[of "curved_egg(''im_radius_px'' \<mapsto> StrV ''DNE'')"] by (simp add: radius_val_def)
  ultimately show ?thesis by (simp add: a)
qed

text \<open>
  C2, as stated: the corrected angle is exactly \<open>2 * pi\<close> minus the uncorrected one.
  It fails: for the egg middle \<open>(0,5)\<close> and the poles \<open>(3,-4)\<close>, \<open>(-3,-4)\<close> the circle
  has centre \<open>(0,0)\<close> and radius 5, the egg middle is 9 away from the midpoint of the
  poles, and the stored angle is \<open>6.283 - arccos (7/25)\<close>.
\<close>

theorem curvature_correction_not_two_pi:
  "get_circle_center (0, 5) (3, -4) (-3, -4) = Inr (Circle (0, 0) 5) \<and>
   distance (rp (0, 5)) (rp (midpoint (3, -4) (-3, -4))) > 5 \<and>
   (\<exists>d ang. calc_curvature curved_egg = Inr (d, Some ang) \<and>
       d ''im_curvature_rad'' = Some (FloatV ang) \<and>
       ang = 2 * pi_src - arccos (7 / 25) \<and>
       ang \<noteq> 2 * pi - arccos (7 / 25))"
proof -
  have "calc_curvature curved_egg =
     Inr (curved_egg(''im_curvature_deg'' \<mapsto> FloatV ((2 * pi_src - arccos (7 / 25)) * 180 / pi_src),
                     ''im_curvature_rad'' \<mapsto> FloatV (2 * pi_src - arccos (7 / 25)),
                     ''im_length_curved_px'' \<mapsto> FloatV ((2 * pi_src - arccos (7 / 25)) * 5)),
          Some (2 * pi_src - arccos (7 / 25)))"
    using curved_egg_displacement
    by (simp add: calc_curvature_def curved_egg_def get_pt_def get_fpt_def bnd_def fdiv_def Let_def)
  moreover have "2 * pi_src - arccos (7 / 25) \<noteq> 2 * pi - arccos (7 / 25)"
    using pi_src_less_pi by simp
  ultimately show ?thesis
    using curved_egg_fit curved_egg_displacement by simp
qed

section \<open>One image: the merge and the empty session\<close>

text \<open>The definitions unfolded to run a concrete session.\<close>

lemmas eval_defs = process_one_image_def is_png_def init_session_def outer_loop.simps
   make_new_view_def bnd_def fdiv_def screen_max_w_def screen_max_h_def py_int_def key_step_def
   annotate_image_def box_click_def raw_coord_def put_def finish_def read_scale_def finalize_def
   set_box_status_def calc_scaling_def calc_shape_def questions_def print_summary_def crop_bounds_def
   need_key_def Let_def g0_def

lemma box_run: "\<exists>g. process_one_image box_env ''pages/smith1990_Apis_ID7.png'' g0 = Returns
   ([''im_box_h1'' \<mapsto> IntV 10, ''im_box_h2'' \<mapsto> IntV 60, ''im_box_w1'' \<mapsto> IntV 10, ''im_box_w2'' \<mapsto> IntV 50,
     ''im_status'' \<mapsto> StrV ''box'', ''im_q_image_type'' \<mapsto> StrV ''d'', ''im_q_development'' \<mapsto> StrV ''n'',
     ''im_q_operculum'' \<mapsto> StrV ''n'', ''im_q_geo_pattern'' \<mapsto> StrV ''n''], g)"
  by (simp add: eval_defs box_env_def scaling_resizer_def)

text \<open>
  C9. Whatever \<^verbatim>\<open>process_one_image\<close> returns, every key of the returned dictionary
  starts with \<^verbatim>\<open>im_\<close>, and \<^verbatim>\<open>file_list[j].update(image_dict)\<close> leaves the value of
  every other key of the record as it was.
\<close>

theorem update_record_frame:
  assumes "process_one_image E path g = Returns (image_dict, g')"
  shows "(\<forall>k\<in>dom image_dict. im_key k) \<and>
         (\<forall>k. \<not> im_key k \<longrightarrow> update_record r image_dict k = r k)"
  using process_one_image_im[OF assms]
  by (auto simp: im_dict_def update_record_def map_add_def split: option.splits)

theorem update_record_frame_witness: "\<exists>d g. process_one_image box_env ''pages/smith1990_Apis_ID7.png'' g0 = Returns (d, g) \<and>
    d ''im_status'' = Some (StrV ''box'') \<and>
    update_record apis_record d ''im_status'' = Some (StrV ''box'') \<and>
    update_record apis_record d ''b'' = Some (StrV ''smith1990'') \<and>
    update_record apis_record d ''g'' = Some (StrV ''Apis'')"
proof -
  from box_run obtain d g where run: "process_one_image box_env ''pages/smith1990_Apis_ID7.png'' g0 = Returns (d, g)"
    and st: "d ''im_status'' = Some (StrV ''box'')" by auto
  from update_record_frame[OF run, of apis_record] have "\<forall>k. \<not> im_key k \<longrightarrow> update_record apis_record d k = apis_record k" by blast
  then have "update_record apis_record d ''b'' = apis_record ''b''" "update_record apis_record d ''g'' = apis_record ''g''"
    by (simp_all add: im_key_def)
  with run st show ?thesis by (auto simp: apis_record_def update_record_def)
qed

text \<open>
  C10. When the image opens and the click loop ends with nothing recorded,
  \<^verbatim>\<open>process_one_image\<close> returns the single field \<^verbatim>\<open>im_status = 'none'\<close>; that status
  is not one of the statuses the specification lists, and a record updated with it
  is no longer eligible for a session.
\<close>

theorem unannotated_entry_gets_status_none:
  assumes "isfile E" "is_png path" "img_shape E = Some (img_h, img_w)"
      and "outer_loop (resized E) img_h img_w (ticks E) (init_session img_h img_w g) = Returns s"
      and "image_data s = Map.empty"
  shows "process_one_image E path g =
           Returns ([''im_status'' \<mapsto> StrV ''none''], s\<lparr>image_data := [''im_status'' \<mapsto> StrV ''none'']\<rparr>) \<and>
         ''none'' \<notin> spec_statuses \<and>
         \<not> eligible (update_record r [''im_status'' \<mapsto> StrV ''none''])"
proof -
  have "pole_recorded (init_session img_h img_w g)" by (simp add: pole_recorded_def init_session_def)
  from outer_loop_pole[OF assms(4) this] assms(5) have "points s = 1" by (simp add: pole_recorded_def)
  from finish_empty[OF assms(5) this, of E] assms(1-4)
  show ?thesis
    by (simp add: process_one_image_def spec_statuses_def eligible_def unresolved_def update_record_def)
qed

theorem unannotated_entry_gets_status_none_witness:
  "process_one_image idle_env ''pages/smith1990_Apis_ID7.png'' g0 =
       Returns ([''im_status'' \<mapsto> StrV ''none''],
                (init_session 100 100 g0)\<lparr>res_h := 800, res_w := 800, mode := M_next, image_data := [''im_status'' \<mapsto> StrV ''none'']\<rparr>) \<and>
   eligible apis_record \<and>
   \<not> eligible (update_record apis_record [''im_status'' \<mapsto> StrV ''none''])"
proof -
  have run: "outer_loop (resized idle_env) 100 100 (ticks idle_env) (init_session 100 100 g0) =
     Returns ((init_session 100 100 g0)\<lparr>res_h := 800, res_w := 800, mode := M_next\<rparr>)"
    by (simp add: eval_defs idle_env_def scaling_resizer_def)
  have "isfile idle_env" "is_png ''pages/smith1990_Apis_ID7.png''" "img_shape idle_env = Some (100, 100)"
    by (simp_all add: idle_env_def is_png_def)
  from unannotated_entry_gets_status_none[OF this run, of apis_record] show ?thesis
    by (simp add: init_session_def eligible_def apis_record_def unresolved_def no_problem_def)
qed

section \<open>Reading the record file\<close>

text \<open>
  C3. Claim: a line that cannot be decoded is skipped and never aborts the run. The
  line counter also counts the skipped line, so the second loop indexes past the end
  of the list: the one-record file returns, and the same file with a malformed
  line before the record ends in \<^verbatim>\<open>IndexError\<close>.
\<close>

theorem malformed_line_aborts_run:
  "(\<exists>r. main False ''dict.txt'' ''pages'' [(''rec'', EvDict apis_record)] (\<lambda>j. no_image) g0
          = Returns (r, [])) \<and>
   main False ''dict.txt'' ''pages'' [(''{'', EvSyntaxError), (''rec'', EvDict apis_record)]
          (\<lambda>j. no_image) g0 = Raises IndexError"
  by (simp add: main_def entry_step_def apis_record_def base_img_name_def bnd_def get_str_def
        print_status_def eligible_def unresolved_def no_problem_def need_key_def
        process_one_image_def no_image_def update_record_def upt_rec Let_def)

text \<open>
  In general: a run of \<^verbatim>\<open>main\<close> keeps the length of the list and every field outside
  the image measurements, and with a line that raised \<^verbatim>\<open>SyntaxError\<close> it returns
  only when the operator quits before the loop reaches the missing index.
\<close>

lemma keeps_fields_refl: "keeps_fields fl fl"
  by (auto simp: keeps_fields_def split: entry.splits)

lemma keeps_fields_trans: "keeps_fields a b \<Longrightarrow> keeps_fields b c \<Longrightarrow> keeps_fields a c"
  unfolding keeps_fields_def
  by (auto split: entry.splits) (metis entry.inject entry.distinct(1))+

lemma entry_step_keeps_fields:
  assumes "entry_step envs dir j r = Returns (r', brk)"
  shows "keeps_fields (file_list r) (file_list r')"
proof (cases "j < length (file_list r)")
  case False
  with assms show ?thesis by (simp add: entry_step_def)
next
  case j: True
  show ?thesis
  proof (cases "file_list r ! j")
    case NotDict
    with assms j show ?thesis by (simp add: entry_step_def)
  next
    case (Rec d)
    show ?thesis
    proof (cases "eligible d")
      case False
      with assms j Rec have "r' = r"
        by (auto simp: entry_step_def split: sum.splits)
      then show ?thesis by (simp add: keeps_fields_refl)
    next
      case True
      from assms j Rec True obtain image_dict g base where
        run: "process_one_image (envs j) (dir @ ''/'' @ base @ ''.png'') (globals r) = Returns (image_dict, g)"
        and r': "file_list r' = file_list r \<or> file_list r' = (file_list r)[j := Rec (update_record d image_dict)]"
        by (auto simp: entry_step_def Let_def split: sum.splits outcome.splits if_splits)
      have frame: "\<forall>k. \<not> im_key k \<longrightarrow> update_record d image_dict k = d k"
        using process_one_image_im[OF run]
        by (auto simp: im_dict_def update_record_def map_add_def split: option.splits)
      from r' show ?thesis
      proof
        assume "file_list r' = file_list r"
        then show ?thesis by (simp add: keeps_fields_refl)
      next
        assume u: "file_list r' = (file_list r)[j := Rec (update_record d image_dict)]"
        show ?thesis
          unfolding keeps_fields_def u using Rec frame j
          by (auto simp: nth_list_update split: entry.splits)
      qed
    qed
  qed
qed

lemma entries_loop_keeps_fields:
  "entries_loop envs dir js r = Returns r' \<Longrightarrow> keeps_fields (file_list r) (file_list r')"
proof (induction js arbitrary: r)
  case Nil
  then show ?case by (simp add: keeps_fields_refl)
next
  case (Cons j js)
  from Cons.prems obtain r1 brk where s: "entry_step envs dir j r = Returns (r1, brk)"
    and rest: "brk \<and> r' = r1 \<or> \<not> brk \<and> entries_loop envs dir js r1 = Returns r'"
    by (auto split: outcome.splits if_splits)
  from rest show ?case
  proof
    assume "brk \<and> r' = r1"
    with entry_step_keeps_fields[OF s] show ?thesis by simp
  next
    assume "\<not> brk \<and> entries_loop envs dir js r1 = Returns r'"
    with Cons.IH[of r1] entry_step_keeps_fields[OF s] show ?thesis
      by (blast intro: keeps_fields_trans)
  qed
qed

lemma read_lines_result:
  "read_lines f ls r = Inr rd \<Longrightarrow> length (r_list rd) \<le> length (r_list r) + length ls \<and>
     r_count rd = r_count r + length ls"
  by (induction f ls r rule: read_lines.induct) (auto split: evaled.splits)

lemma entry_step_break_is_quit:
  "entry_step envs dir j r = Returns (r', True) \<Longrightarrow> mode (globals r') = M_quit"
  by (auto simp: entry_step_def Let_def split: if_splits entry.splits sum.splits outcome.splits)

lemma entry_step_in_range:
  "entry_step envs dir j r = Returns (r', brk) \<Longrightarrow> j < length (file_list r)"
  by (auto simp: entry_step_def split: if_splits)

lemma entries_loop_past_end:
  "entries_loop envs dir js r = Returns r' \<Longrightarrow> \<exists>j\<in>set js. length (file_list r) \<le> j \<Longrightarrow>
     mode (globals r') = M_quit"
proof (induction js arbitrary: r)
  case Nil
  then show ?case by simp
next
  case (Cons j js)
  from Cons.prems(1) obtain r1 brk where s: "entry_step envs dir j r = Returns (r1, brk)"
    and rest: "brk \<and> r' = r1 \<or> \<not> brk \<and> entries_loop envs dir js r1 = Returns r'"
    by (auto split: outcome.splits if_splits)
  have len: "length (file_list r1) = length (file_list r)"
    using entry_step_keeps_fields[OF s] by (simp add: keeps_fields_def)
  have "j < length (file_list r)" by (rule entry_step_in_range[OF s])
  with Cons.prems(2) have later: "\<exists>i\<in>set js. length (file_list r1) \<le> i" by (auto simp: len)
  from rest show ?case
  proof
    assume "brk \<and> r' = r1"
    with s show ?thesis by (auto dest: entry_step_break_is_quit)
  next
    assume "\<not> brk \<and> entries_loop envs dir js r1 = Returns r'"
    with Cons.IH[OF _ later] show ?thesis by simp
  qed
qed

lemma read_lines_short:
  "read_lines f ls r = Inr rd \<Longrightarrow> length (r_list r) \<le> r_count r \<Longrightarrow>
     (\<exists>l. (l, EvSyntaxError) \<in> set ls) \<or> length (r_list r) < r_count r \<Longrightarrow> length (r_list rd) < r_count rd"
proof (induction f ls r rule: read_lines.induct)
  case (1 f r)
  then show ?case by simp
next
  case (2 f line ev rest r)
  show ?case
  proof (cases ev)
    case (EvDict d)
    with 2 show ?thesis by auto
  next
    case EvOther
    with 2 show ?thesis by auto
  next
    case EvSyntaxError
    with 2 show ?thesis by auto
  next
    case (EvRaise e)
    with 2 show ?thesis by auto
  qed
qed

lemma malformed_line_never_finishes:
  assumes "(l, EvSyntaxError) \<in> set lines"
      and "main False dict_file dir lines envs g = Returns (r, lg)"
  shows "mode (globals r) = M_quit"
proof -
  from assms(2) obtain rd where rd: "read_lines dict_file lines \<lparr>r_list = [], r_count = 0, r_log = []\<rparr> = Inr rd"
    and loop: "entries_loop envs dir [0..<r_count rd]
                 \<lparr>file_list = r_list rd, globals = g, mode_assigned = False, out_file = None\<rparr> = Returns r"
    by (auto simp: main_def split: sum.splits outcome.splits if_splits)
  from read_lines_short[OF rd] assms(1) have "length (r_list rd) < r_count rd" by auto
  then have "\<exists>j\<in>set [0..<r_count rd]. length (r_list rd) \<le> j" by auto
  with entries_loop_past_end[OF loop] show ?thesis by simp
qed

end
